theory Spec2Isabelle
  imports
    Main
    "HOL-Library.Char_ord"
    "HOL-Library.List_Lexorder"
    "HOL-Library.Sublist"
    "HOL-Library.AList"
begin

section \<open>Python values shared by the models\<close>

text \<open>
  Exceptions are values: a function that may raise returns \<open>error + 'a\<close>, with \<open>Inl\<close> for
  the exception.  Only the exception class is kept, never its message, so that no result
  depends on the order in which Python iterates over a set or a dict.
\<close>

datatype error =
    KeyError | ValueError | AttributeError | TypeError | UnicodeEncodeError | OtherError

text \<open>
  A Python dict is an association list with unique keys: \<open>map_of\<close> reads a key,
  \<open>AList.update\<close> is \<open>d[k] = v\<close> (overwrite in place, or append a new key) and
  \<open>AList.delete\<close> removes a key.  A Python set is a list of its elements; \<open>List.insert\<close>
  is \<open>add\<close> and \<open>remdups\<close> is \<open>set(...)\<close> of a list.  The order of such a list stands
  for the iteration order of the Python object.
\<close>

type_synonym ('k, 'v) dict = "('k \<times> 'v) list"

definition dict_keys :: "('k, 'v) dict \<Rightarrow> 'k list" where
  "dict_keys d = map fst d"

definition dict_values :: "('k, 'v) dict \<Rightarrow> 'v list" where
  "dict_values d = map snd d"

definition dict_getitem :: "('k, 'v) dict \<Rightarrow> 'k \<Rightarrow> error + 'v" where
  "dict_getitem d k = (case map_of d k of None \<Rightarrow> Inl KeyError | Some v \<Rightarrow> Inr v)"

definition dict_pop :: "('k, 'v) dict \<Rightarrow> 'k \<Rightarrow> error + ('k, 'v) dict" where
  "dict_pop d k = (case map_of d k of None \<Rightarrow> Inl KeyError | Some v \<Rightarrow> Inr (AList.delete k d))"

subsection \<open>Strings\<close>

fun py_split :: "char \<Rightarrow> string \<Rightarrow> string list" where
  "py_split sep [] = [[]]"
| "py_split sep (c # cs) =
     (if c = sep then [] # py_split sep cs
      else (case py_split sep cs of
              [] \<Rightarrow> [[c]]
            | t # ts \<Rightarrow> (c # t) # ts))"

fun py_join :: "string \<Rightarrow> string list \<Rightarrow> string" where
  "py_join sep [] = []"
| "py_join sep [t] = t"
| "py_join sep (t # ts) = t @ sep @ py_join sep ts"

definition endswith :: "string \<Rightarrow> string \<Rightarrow> bool" where
  "endswith s suf = suffix suf s"

definition is_whitespace :: "char \<Rightarrow> bool" where
  "is_whitespace c = (c \<in> set [CHR '' '', CHR 0x09, CHR 0x0A, CHR 0x0B, CHR 0x0C, CHR 0x0D])"

definition strip :: "string \<Rightarrow> string" where
  "strip s = rev (dropWhile is_whitespace (rev (dropWhile is_whitespace s)))"

text \<open>\<open>tokens[-1]\<close> of a split: the list is never empty, so the index never fails.\<close>

definition last_token :: "string \<Rightarrow> string" where
  "last_token s = last (py_split CHR ''/'' s)"

subsection \<open>Logging\<close>

datatype LoggerLevel = DEBUG | INFO | WARNING | ERROR

type_synonym log = "(LoggerLevel \<times> string) list"

subsection \<open>Exclusion filters (utilities/filters.py)\<close>

record Filter =
  base_exclusions :: "string list"
  debug_exclusions :: "string list"
  tf_exclusions :: "string list"

definition should_filter_out :: "Filter \<Rightarrow> string \<Rightarrow> bool" where
  "should_filter_out f item =
     (item \<in> set (base_exclusions f) \<or> item \<in> set (debug_exclusions f) \<or>
      item \<in> set (tf_exclusions f))"

definition NodeFilter :: "bool \<Rightarrow> bool \<Rightarrow> Filter" where
  "NodeFilter filter_out_debug filter_out_tf =
     \<lparr> base_exclusions = [''/roslaunch''],
       debug_exclusions = (if filter_out_debug then [''/rosout''] else []),
       tf_exclusions = [] \<rparr>"

section \<open>Fact builders (chris\_ros\_snapshot)\<close>

subsection \<open>\<open>_EntityBuilder\<close> and \<open>TopicBuilder\<close>\<close>

definition name_suffix_of :: "string \<Rightarrow> string" where
  "name_suffix_of n = ''/'' @ last_token n"

definition name_base_of :: "string \<Rightarrow> string" where
  "name_base_of n = py_join ''/'' (butlast (py_split CHR ''/'' n))"

record EntityBuilder =
  name :: string
  name_suffix :: string
  name_base :: string

record TopicBuilder = EntityBuilder +
  topic_construct_type :: "string option"
  published :: "string list"
  subscribed :: "string list"

definition TopicBuilder_init :: "string \<Rightarrow> TopicBuilder" where
  "TopicBuilder_init n =
     \<lparr> name = n, name_suffix = name_suffix_of n, name_base = name_base_of n,
       topic_construct_type = None, published = [], subscribed = [] \<rparr>"

definition publisher_node_names :: "Filter \<Rightarrow> TopicBuilder \<Rightarrow> string list" where
  "publisher_node_names node_filter tb =
     remdups (filter (\<lambda>n. \<not> should_filter_out node_filter n) (published tb))"

definition subscriber_node_names :: "Filter \<Rightarrow> TopicBuilder \<Rightarrow> string list" where
  "subscriber_node_names node_filter tb =
     remdups (filter (\<lambda>n. \<not> should_filter_out node_filter n) (subscribed tb))"

datatype status = Published | Subscribed

definition add_node_name :: "TopicBuilder \<Rightarrow> string \<Rightarrow> status \<Rightarrow> TopicBuilder" where
  "add_node_name tb node_name st =
     (case st of
        Published \<Rightarrow> tb\<lparr>published := List.insert node_name (published tb)\<rparr>
      | Subscribed \<Rightarrow> tb\<lparr>subscribed := List.insert node_name (subscribed tb)\<rparr>)"

subsection \<open>\<open>ActionBuilder\<close>\<close>

definition CLIENT_PUBLISHED_TOPIC_SUFFIXES :: "string list" where
  "CLIENT_PUBLISHED_TOPIC_SUFFIXES = [''/cancel'', ''/goal'']"

definition SERVER_PUBLISHED_TOPIC_SUFFIXES :: "string list" where
  "SERVER_PUBLISHED_TOPIC_SUFFIXES = [''/feedback'', ''/result'', ''/status'']"

definition TOPIC_SUFFIXES :: "string list" where
  "TOPIC_SUFFIXES = remdups (CLIENT_PUBLISHED_TOPIC_SUFFIXES @ SERVER_PUBLISHED_TOPIC_SUFFIXES)"

definition NUM_TOPIC_SUFFIXES :: int where
  "NUM_TOPIC_SUFFIXES = int (length TOPIC_SUFFIXES)"

definition CORE_TOPIC_SUFFIXES_TO_TYPE_TOKENS :: "(string, string) dict" where
  "CORE_TOPIC_SUFFIXES_TO_TYPE_TOKENS =
     [(''/feedback'', ''Feedback''), (''/goal'', ''Goal''), (''/result'', ''Result'')]"

record ActionBuilder = EntityBuilder +
  action_construct_type :: "string option"
  topic_names_to_builders :: "(string, TopicBuilder) dict"
  topic_name_suffixes_to_builders :: "(string, TopicBuilder) dict"
  client_node_names :: "string list"
  server_node_names :: "string list"

definition ActionBuilder_init :: "string \<Rightarrow> ActionBuilder" where
  "ActionBuilder_init n =
     \<lparr> name = n, name_suffix = name_suffix_of n, name_base = name_base_of n,
       action_construct_type = None, topic_names_to_builders = [],
       topic_name_suffixes_to_builders = [], client_node_names = [],
       server_node_names = [] \<rparr>"

definition add_topic_builder :: "ActionBuilder \<Rightarrow> TopicBuilder \<Rightarrow> ActionBuilder" where
  "add_topic_builder ab tb =
     ab\<lparr> topic_names_to_builders := AList.update (name tb) tb (topic_names_to_builders ab),
         topic_name_suffixes_to_builders :=
           AList.update (name_suffix tb) tb (topic_name_suffixes_to_builders ab) \<rparr>"

definition add_or_increment_dictionary_count ::
  "(string, int) dict \<Rightarrow> string \<Rightarrow> (string, int) dict" where
  "add_or_increment_dictionary_count counts_dictionary key =
     (let d = (if key \<notin> set (dict_keys counts_dictionary)
               then AList.update key 0 counts_dictionary else counts_dictionary)
      in AList.update key ((case map_of d key of Some c \<Rightarrow> c | None \<Rightarrow> 0) + 1) d)"

text \<open>
  The two loops of \<open>_count_action_node_appearances\<close>.  The lookup
  \<open>self.topic_name_suffixes_to_builders[suffix]\<close> has no guard: a suffix without a
  builder raises \<open>KeyError\<close>.
\<close>

fun count_published ::
  "Filter \<Rightarrow> (string, TopicBuilder) dict \<Rightarrow> string list \<Rightarrow> (string, int) dict
     \<Rightarrow> error + (string, int) dict" where
  "count_published node_filter builders [] counts = Inr counts"
| "count_published node_filter builders (sfx # rest) counts =
     (case dict_getitem builders sfx of
        Inl e \<Rightarrow> Inl e
      | Inr topic_builder \<Rightarrow>
          count_published node_filter builders rest
            (foldl add_or_increment_dictionary_count counts
               (publisher_node_names node_filter topic_builder)))"

fun count_subscribed ::
  "Filter \<Rightarrow> (string, TopicBuilder) dict \<Rightarrow> string list \<Rightarrow> (string, int) dict
     \<Rightarrow> error + (string, int) dict" where
  "count_subscribed node_filter builders [] counts = Inr counts"
| "count_subscribed node_filter builders (sfx # rest) counts =
     (case dict_getitem builders sfx of
        Inl e \<Rightarrow> Inl e
      | Inr topic_builder \<Rightarrow>
          count_subscribed node_filter builders rest
            (foldl add_or_increment_dictionary_count counts
               (subscriber_node_names node_filter topic_builder)))"

definition count_action_node_appearances ::
  "Filter \<Rightarrow> ActionBuilder \<Rightarrow> string list \<Rightarrow> string list \<Rightarrow> (string, int) dict
     \<Rightarrow> error + (string, int) dict" where
  "count_action_node_appearances node_filter ab publisher_suffixes subscriber_suffixes
       action_node_to_counts =
     (case count_published node_filter (topic_name_suffixes_to_builders ab)
             publisher_suffixes action_node_to_counts of
        Inl e \<Rightarrow> Inl e
      | Inr counts \<Rightarrow>
          count_subscribed node_filter (topic_name_suffixes_to_builders ab)
            subscriber_suffixes counts)"

text \<open>
  \<open>_gather_valid_action_node_names_based_on_appearance_counts\<close>: the accepted names and
  the error lines logged for the rejected ones.
\<close>

definition invalid_node_message :: "string \<Rightarrow> LoggerLevel \<times> string" where
  "invalid_node_message node_name =
     (ERROR, ''Node name '' @ node_name @ '' for Action not valid as action client or server.'')"

fun gather_valid_action_node_names_based_on_appearance_counts ::
  "(string, int) dict \<Rightarrow> string list \<times> log" where
  "gather_valid_action_node_names_based_on_appearance_counts [] = ([], [])"
| "gather_valid_action_node_names_based_on_appearance_counts ((node_name, appearance_count) # rest) =
     (let (valid_node_names, lg) = gather_valid_action_node_names_based_on_appearance_counts rest
      in if appearance_count = NUM_TOPIC_SUFFIXES
         then (List.insert node_name valid_node_names, lg)
         else (valid_node_names, invalid_node_message node_name # lg))"

definition gather_action_client_and_server_names ::
  "Filter \<Rightarrow> ActionBuilder \<Rightarrow> error + ((string list \<times> string list) \<times> log)" where
  "gather_action_client_and_server_names node_filter ab =
     (case count_action_node_appearances node_filter ab
             CLIENT_PUBLISHED_TOPIC_SUFFIXES SERVER_PUBLISHED_TOPIC_SUFFIXES [] of
        Inl e \<Rightarrow> Inl e
      | Inr action_client_names_to_counts \<Rightarrow>
     (case count_action_node_appearances node_filter ab
             SERVER_PUBLISHED_TOPIC_SUFFIXES CLIENT_PUBLISHED_TOPIC_SUFFIXES [] of
        Inl e \<Rightarrow> Inl e
      | Inr action_server_names_to_counts \<Rightarrow>
          (let (valid_action_client_names, lg1) =
                 gather_valid_action_node_names_based_on_appearance_counts
                   action_client_names_to_counts;
               (valid_action_server_names, lg2) =
                 gather_valid_action_node_names_based_on_appearance_counts
                   action_server_names_to_counts
           in Inr ((valid_action_client_names, valid_action_server_names), lg1 @ lg2))))"

text \<open>
  \<open>ActionBuilder.prepare\<close>: the topic builders' own \<open>prepare\<close> does nothing, then the
  client and server names are gathered; nothing catches an exception on the way.
\<close>

definition ActionBuilder_prepare :: "Filter \<Rightarrow> ActionBuilder \<Rightarrow> error + (ActionBuilder \<times> log)" where
  "ActionBuilder_prepare node_filter ab =
     (case gather_action_client_and_server_names node_filter ab of
        Inl e \<Rightarrow> Inl e
      | Inr ((clients, servers), lg) \<Rightarrow>
          Inr (ab\<lparr>client_node_names := clients, server_node_names := servers\<rparr>, lg))"

definition test_potential_action_topic_builder :: "TopicBuilder \<Rightarrow> bool" where
  "test_potential_action_topic_builder action_topic =
     (name_suffix action_topic \<in> set TOPIC_SUFFIXES)"

definition validate_topic_builders_have_required_suffixes :: "TopicBuilder list \<Rightarrow> bool" where
  "validate_topic_builders_have_required_suffixes topic_builders =
     (let found_topic_suffixes = remdups (map name_suffix topic_builders)
      in length found_topic_suffixes \<ge> 3 \<and> set found_topic_suffixes \<subseteq> set TOPIC_SUFFIXES)"

text \<open>
  The type of a topic builder is read with \<open>.endswith\<close>; on a builder whose type was
  never set (\<open>None\<close>) that attribute access raises \<open>AttributeError\<close>.
\<close>

fun validate_core_loop ::
  "(string, string) dict \<Rightarrow> (string, TopicBuilder) dict \<Rightarrow> error + bool" where
  "validate_core_loop [] builders = Inr True"
| "validate_core_loop ((core_topic_name_suffix, core_topic_type_token) # rest) builders =
     (if core_topic_name_suffix \<notin> set (dict_keys builders) then Inr False
      else (case dict_getitem builders core_topic_name_suffix of
              Inl e \<Rightarrow> Inl e
            | Inr tb \<Rightarrow>
               (case topic_construct_type tb of
                  None \<Rightarrow> Inl AttributeError
                | Some topic_builder_type \<Rightarrow>
                    if \<not> endswith topic_builder_type (''Action'' @ core_topic_type_token)
                    then Inr False
                    else validate_core_loop rest builders)))"

definition validate_core_topic_builders_have_required_types ::
  "(string, TopicBuilder) dict \<Rightarrow> error + bool" where
  "validate_core_topic_builders_have_required_types topic_name_suffixes_to_builders' =
     validate_core_loop CORE_TOPIC_SUFFIXES_TO_TYPE_TOKENS topic_name_suffixes_to_builders'"

definition validate_action_topic_builders :: "ActionBuilder \<Rightarrow> error + bool" where
  "validate_action_topic_builders ab =
     (let valid_topic_suffixes =
            validate_topic_builders_have_required_suffixes (dict_values (topic_names_to_builders ab))
      in case validate_core_topic_builders_have_required_types
                (topic_name_suffixes_to_builders ab) of
           Inl e \<Rightarrow> Inl e
         | Inr valid_core_topic_types \<Rightarrow> Inr (valid_topic_suffixes \<and> valid_core_topic_types))"

text \<open>
  \<open>_extract_action_construct_type\<close>.  The loop writes \<open>self._construct_type\<close> as it goes,
  so the field keeps what an earlier iteration stored when a later one raises: the result
  is the exception, if any, together with the field as the loop left it.  The core suffixes
  are visited in the order the class lists them.  The second \<open>raise\<close> of the source
  formats its message with \<open>topic_builder_type.name\<close>, an attribute a string does not
  have, so that branch ends in \<open>AttributeError\<close>.
\<close>

fun extract_construct_loop ::
  "(string, string) dict \<Rightarrow> (string, TopicBuilder) dict \<Rightarrow> string option
     \<Rightarrow> error option \<times> string option" where
  "extract_construct_loop [] builders ct = (None, ct)"
| "extract_construct_loop ((core_topic_name_suffix, core_topic_type_token) # rest) builders ct =
     (if core_topic_name_suffix \<notin> set (dict_keys builders) then (Some ValueError, ct)
      else (case dict_getitem builders core_topic_name_suffix of
              Inl e \<Rightarrow> (Some e, ct)
            | Inr tb \<Rightarrow>
               (case topic_construct_type tb of
                  None \<Rightarrow> (Some AttributeError, ct)
                | Some topic_builder_type \<Rightarrow>
                    if \<not> endswith topic_builder_type (''Action'' @ core_topic_type_token)
                    then (Some AttributeError, ct)
                    else
                      (let stem = take (length topic_builder_type
                                          - length (''Action'' @ core_topic_type_token))
                                    topic_builder_type
                       in case ct of
                            None \<Rightarrow> extract_construct_loop rest builders (Some stem)
                          | Some c \<Rightarrow>
                              if c \<noteq> stem then (Some ValueError, ct)
                              else extract_construct_loop rest builders ct))))"

definition extract_action_construct_type :: "ActionBuilder \<Rightarrow> error option \<times> ActionBuilder" where
  "extract_action_construct_type ab =
     (let (raised, ct) = extract_construct_loop CORE_TOPIC_SUFFIXES_TO_TYPE_TOKENS
                           (topic_name_suffixes_to_builders ab) (action_construct_type ab)
      in (raised, ab\<lparr>action_construct_type := ct\<rparr>))"

text \<open>
  The \<open>construct_type\<close> property: the value returned or the exception raised, and the
  builder afterwards.  The type is extracted only while the field is \<open>None\<close>; a read that
  raised after the field was written is followed by reads that return the field.
\<close>

definition construct_type :: "ActionBuilder \<Rightarrow> (error + string option) \<times> ActionBuilder" where
  "construct_type ab =
     (if action_construct_type ab = None
      then (case extract_action_construct_type ab of
              (Some e, ab') \<Rightarrow> (Inl e, ab')
            | (None, ab') \<Rightarrow> (Inr (action_construct_type ab'), ab'))
      else (Inr (action_construct_type ab), ab))"

subsection \<open>\<open>TopicBankBuilder\<close>\<close>

record TopicBankBuilder =
  topic_types :: "(string \<times> string) list"
  names_to_entity_builders :: "(string, TopicBuilder) dict"

definition TopicBankBuilder_init :: "(string \<times> string) list \<Rightarrow> TopicBankBuilder" where
  "TopicBankBuilder_init tts = \<lparr> topic_types = tts, names_to_entity_builders = [] \<rparr>"

definition find_topic_type :: "(string \<times> string) list \<Rightarrow> string \<Rightarrow> string" where
  "find_topic_type tts desired_topic =
     foldl (\<lambda>obtained_topic_type (topic, topic_type).
              if topic = desired_topic then topic_type else obtained_topic_type)
       ''Error: Unknown'' tts"

definition create_entity_builder :: "TopicBankBuilder \<Rightarrow> string \<Rightarrow> TopicBuilder" where
  "create_entity_builder bank n =
     (let topic_builder = TopicBuilder_init n
      in topic_builder\<lparr>topic_construct_type :=
           Some (find_topic_type (topic_types bank) (name topic_builder))\<rparr>)"

definition add_entity_builder :: "TopicBankBuilder \<Rightarrow> TopicBuilder \<Rightarrow> TopicBankBuilder" where
  "add_entity_builder bank entity_builder =
     bank\<lparr>names_to_entity_builders :=
       AList.update (name entity_builder) entity_builder (names_to_entity_builders bank)\<rparr>"

text \<open>
  \<open>__getitem__\<close>: a name that is absent gets a fresh builder, stored under the builder's
  own name, which is the name asked for; the final lookup therefore finds it.
\<close>

definition TopicBankBuilder_getitem ::
  "TopicBankBuilder \<Rightarrow> string \<Rightarrow> TopicBuilder \<times> TopicBankBuilder" where
  "TopicBankBuilder_getitem bank n =
     (case map_of (names_to_entity_builders bank) n of
        Some entity_builder \<Rightarrow> (entity_builder, bank)
      | None \<Rightarrow>
          (let entity_builder = create_entity_builder bank n
           in (entity_builder, add_entity_builder bank entity_builder)))"

text \<open>\<open>_remove_action_topic_builders\<close>: \<open>pop\<close> without a default raises on an absent name.\<close>

fun remove_action_topic_builders ::
  "(string, TopicBuilder) dict \<Rightarrow> TopicBuilder list \<Rightarrow> error + (string, TopicBuilder) dict" where
  "remove_action_topic_builders builders [] = Inr builders"
| "remove_action_topic_builders builders (action_topic_builder # rest) =
     (case dict_pop builders (name action_topic_builder) of
        Inl e \<Rightarrow> Inl e
      | Inr builders' \<Rightarrow> remove_action_topic_builders builders' rest)"

text \<open>First loop of the extraction: group the candidate topics by the base of their name.\<close>

definition group_topic_builder ::
  "(string, ActionBuilder) dict \<Rightarrow> TopicBuilder \<Rightarrow> (string, ActionBuilder) dict" where
  "group_topic_builder names_to_action_builders topic_builder =
     (if test_potential_action_topic_builder topic_builder
      then (let action_name = name_base topic_builder;
                d = (if action_name \<notin> set (dict_keys names_to_action_builders)
                     then AList.update action_name (ActionBuilder_init action_name)
                            names_to_action_builders
                     else names_to_action_builders)
            in AList.map_entry action_name (\<lambda>ab. add_topic_builder ab topic_builder) d)
      else names_to_action_builders)"

text \<open>
  Second loop, over a copy of the grouping: an invalid group is dropped from the result,
  a valid one has its topics removed from the bank.  The state is the result dict, the
  bank's store and the log.
\<close>

fun validate_and_remove ::
  "(string \<times> ActionBuilder) list
     \<Rightarrow> (string, ActionBuilder) dict \<times> (string, TopicBuilder) dict \<times> log
     \<Rightarrow> error + ((string, ActionBuilder) dict \<times> (string, TopicBuilder) dict \<times> log)" where
  "validate_and_remove [] st = Inr st"
| "validate_and_remove ((action_name, action_builder) # rest) (names_to_action_builders, builders, lg) =
     (case validate_action_topic_builders action_builder of
        Inl e \<Rightarrow> Inl e
      | Inr valid \<Rightarrow>
          if \<not> valid
          then (case dict_pop names_to_action_builders action_name of
                  Inl e \<Rightarrow> Inl e
                | Inr d \<Rightarrow>
                    validate_and_remove rest
                      (d, builders,
                       lg @ [(INFO, ''Action '' @ action_name
                                @ '' NOT valid. Not removing topics from topic bank.'')]))
          else (case remove_action_topic_builders builders
                       (dict_values (topic_names_to_builders action_builder)) of
                  Inl e \<Rightarrow> Inl e
                | Inr builders' \<Rightarrow>
                    validate_and_remove rest
                      (names_to_action_builders, builders',
                       lg @ [(INFO, ''Action '' @ action_name
                                @ '' is valid. Removing corresponding topics from topic bank.'')])))"

definition extract_action_builders_from_internal_topic_builders ::
  "TopicBankBuilder \<Rightarrow> error + ((string, ActionBuilder) dict \<times> TopicBankBuilder \<times> log)" where
  "extract_action_builders_from_internal_topic_builders bank =
     (let names_to_action_builders =
            foldl group_topic_builder [] (dict_values (names_to_entity_builders bank))
      in case validate_and_remove names_to_action_builders
                (names_to_action_builders, names_to_entity_builders bank,
                 [(INFO, ''Searching topics in topic bank for corresponding actions.'')]) of
           Inl e \<Rightarrow> Inl e
         | Inr (d, builders, lg) \<Rightarrow> Inr (d, bank\<lparr>names_to_entity_builders := builders\<rparr>, lg))"

subsection \<open>The action scenarios of the specification\<close>

definition move_topic_types :: "(string \<times> string) list" where
  "move_topic_types =
     [(''/r/move/goal'', ''pkg/MoveActionGoal''),
      (''/r/move/cancel'', ''actionlib_msgs/GoalID''),
      (''/r/move/feedback'', ''pkg/MoveActionFeedback''),
      (''/r/move/result'', ''pkg/MoveActionResult''),
      (''/r/move/status'', ''actionlib_msgs/GoalStatusArray'')]"

text \<open>The bank after each topic of a type table has been looked up once, as fact collection does.\<close>

definition bank_of_topic_types :: "(string \<times> string) list \<Rightarrow> TopicBankBuilder" where
  "bank_of_topic_types tts =
     foldl (\<lambda>bank n. snd (TopicBankBuilder_getitem bank n)) (TopicBankBuilder_init tts) (map fst tts)"

definition mismatch_topic_types :: "(string \<times> string) list" where
  "mismatch_topic_types =
     [(''/r/move/goal'', ''pkg/MoveActionGoal''),
      (''/r/move/cancel'', ''actionlib_msgs/GoalID''),
      (''/r/move/feedback'', ''pkg/MoveActionFeedback''),
      (''/r/move/result'', ''other/MoveActionResult''),
      (''/r/move/status'', ''actionlib_msgs/GoalStatusArray'')]"

text \<open>A cluster of the five action topics under any base name, with any five types.\<close>

definition cluster_topic_types ::
  "string \<Rightarrow> string \<Rightarrow> string \<Rightarrow> string \<Rightarrow> string \<Rightarrow> string \<Rightarrow> (string \<times> string) list" where
  "cluster_topic_types b tg tc tf tr ts =
     [(b @ ''/goal'', tg), (b @ ''/cancel'', tc), (b @ ''/feedback'', tf),
      (b @ ''/result'', tr), (b @ ''/status'', ts)]"

text \<open>The action builder that the extraction's first loop assembles from such a bank.\<close>

definition cluster_action_builder ::
  "string \<Rightarrow> string \<Rightarrow> string \<Rightarrow> string \<Rightarrow> string \<Rightarrow> string \<Rightarrow> ActionBuilder" where
  "cluster_action_builder b tg tc tf tr ts =
     foldl add_topic_builder (ActionBuilder_init b)
       (dict_values (names_to_entity_builders
          (bank_of_topic_types (cluster_topic_types b tg tc tf tr ts))))"

subsection \<open>The appearance count, as the specification words it\<close>

text \<open>
  How many of the given topics a node appears on in the correct direction: as a publisher
  on the topics of \<open>publisher_suffixes\<close>, as a subscriber on those of
  \<open>subscriber_suffixes\<close>.  This is the specification's count, stated without the
  dictionary the code builds.
\<close>

definition spec_appearance_count ::
  "Filter \<Rightarrow> (string, TopicBuilder) dict \<Rightarrow> string list \<Rightarrow> string list \<Rightarrow> string \<Rightarrow> int" where
  "spec_appearance_count node_filter builders publisher_suffixes subscriber_suffixes node_name =
     int (length (filter (\<lambda>s. case map_of builders s of
                                None \<Rightarrow> False
                              | Some tb \<Rightarrow> node_name \<in> set (publisher_node_names node_filter tb))
                    publisher_suffixes))
     + int (length (filter (\<lambda>s. case map_of builders s of
                                  None \<Rightarrow> False
                                | Some tb \<Rightarrow> node_name \<in> set (subscriber_node_names node_filter tb))
                      subscriber_suffixes))"

definition client_appearance_count :: "Filter \<Rightarrow> ActionBuilder \<Rightarrow> string \<Rightarrow> int" where
  "client_appearance_count node_filter ab node_name =
     spec_appearance_count node_filter (topic_name_suffixes_to_builders ab)
       CLIENT_PUBLISHED_TOPIC_SUFFIXES SERVER_PUBLISHED_TOPIC_SUFFIXES node_name"

definition server_appearance_count :: "Filter \<Rightarrow> ActionBuilder \<Rightarrow> string \<Rightarrow> int" where
  "server_appearance_count node_filter ab node_name =
     spec_appearance_count node_filter (topic_name_suffixes_to_builders ab)
       SERVER_PUBLISHED_TOPIC_SUFFIXES CLIENT_PUBLISHED_TOPIC_SUFFIXES node_name"

definition has_all_suffixes :: "ActionBuilder \<Rightarrow> bool" where
  "has_all_suffixes ab =
     list_all (\<lambda>s. s \<in> set (dict_keys (topic_name_suffixes_to_builders ab))) TOPIC_SUFFIXES"

text \<open>The count a counting dictionary holds for a name; an absent name counts zero.\<close>

definition count_of :: "(string, int) dict \<Rightarrow> string \<Rightarrow> int" where
  "count_of d n = (case map_of d n of None \<Rightarrow> 0 | Some c \<Rightarrow> c)"

text \<open>A counting dictionary is well formed: its keys are unique and every count is positive.\<close>

definition counts_ok :: "(string, int) dict \<Rightarrow> bool" where
  "counts_ok d = (distinct (map fst d) \<and> list_all (\<lambda>(k, c). 1 \<le> c) d)"

subsection \<open>Scenarios for the role counting\<close>

definition topic_with_nodes :: "string \<Rightarrow> string \<Rightarrow> string list \<Rightarrow> string list \<Rightarrow> TopicBuilder" where
  "topic_with_nodes n ty pubs subs =
     foldl (\<lambda>tb x. add_node_name tb x Subscribed)
       (foldl (\<lambda>tb x. add_node_name tb x Published)
          ((TopicBuilder_init n)\<lparr>topic_construct_type := Some ty\<rparr>) pubs)
       subs"

text \<open>A cluster with only the three core topics: it passes validation.\<close>

definition core_only_action_builder :: ActionBuilder where
  "core_only_action_builder =
     foldl add_topic_builder (ActionBuilder_init ''/r/move'')
       [topic_with_nodes ''/r/move/goal'' ''pkg/MoveActionGoal'' [''/client''] [''/server''],
        topic_with_nodes ''/r/move/feedback'' ''pkg/MoveActionFeedback'' [''/server''] [''/client''],
        topic_with_nodes ''/r/move/result'' ''pkg/MoveActionResult'' [''/server''] [''/client'']]"

text \<open>
  A full cluster with a client, a server and a node that only publishes the goal topic.
\<close>

definition role_action_builder :: ActionBuilder where
  "role_action_builder =
     foldl add_topic_builder (ActionBuilder_init ''/r/move'')
       [topic_with_nodes ''/r/move/goal'' ''pkg/MoveActionGoal'' [''/client'', ''/partial''] [''/server''],
        topic_with_nodes ''/r/move/cancel'' ''actionlib_msgs/GoalID'' [''/client''] [''/server''],
        topic_with_nodes ''/r/move/feedback'' ''pkg/MoveActionFeedback'' [''/server''] [''/client''],
        topic_with_nodes ''/r/move/result'' ''pkg/MoveActionResult'' [''/server''] [''/client''],
        topic_with_nodes ''/r/move/status'' ''actionlib_msgs/GoalStatusArray'' [''/server''] [''/client'']]"

text \<open>
  A topic registry with four of the five topics of an action, \<open>/status\<close> missing, as fact
  collection fills it: the client publishes the goal and cancel topics and subscribes to
  feedback and result, the server does the reverse.
\<close>

definition four_topic_bank :: TopicBankBuilder where
  "four_topic_bank =
     foldl add_entity_builder
       (TopicBankBuilder_init
          [(''/r/move/goal'', ''pkg/MoveActionGoal''), (''/r/move/cancel'', ''actionlib_msgs/GoalID''),
           (''/r/move/feedback'', ''pkg/MoveActionFeedback''),
           (''/r/move/result'', ''pkg/MoveActionResult'')])
       [topic_with_nodes ''/r/move/goal'' ''pkg/MoveActionGoal'' [''/client''] [''/server''],
        topic_with_nodes ''/r/move/cancel'' ''actionlib_msgs/GoalID'' [''/client''] [''/server''],
        topic_with_nodes ''/r/move/feedback'' ''pkg/MoveActionFeedback'' [''/server''] [''/client''],
        topic_with_nodes ''/r/move/result'' ''pkg/MoveActionResult'' [''/server''] [''/client'']]"

subsection \<open>\<open>NodeBuilder\<close>: nodelet and nodelet manager classification\<close>

definition TopicFilter :: "bool \<Rightarrow> bool \<Rightarrow> Filter" where
  "TopicFilter filter_out_debug filter_out_tf =
     \<lparr> base_exclusions = [],
       debug_exclusions = (if filter_out_debug then [''/rosout'', ''/rosout_agg'', ''/statistics''] else []),
       tf_exclusions = (if filter_out_tf then [''/tf'', ''/tf_static''] else []) \<rparr>"

definition ServiceTypeFilter :: "bool \<Rightarrow> bool \<Rightarrow> Filter" where
  "ServiceTypeFilter filter_out_debug filter_out_tf =
     \<lparr> base_exclusions = [],
       debug_exclusions = (if filter_out_debug then [''roscpp/GetLoggers'', ''roscpp/SetLoggerLevel''] else []),
       tf_exclusions = [] \<rparr>"

text \<open>
  The fields of a node builder that the classification reads or writes.  The values of
  the topic-name dicts are the remapped names (\<open>None\<close> until a specification is matched).
\<close>

record NodeBuilder = EntityBuilder +
  all_topic_names :: "(string, string option) dict"
  topic_names_published :: "(string, string option) dict"
  topic_names_subscribed :: "(string, string option) dict"
  topic_names_to_types :: "(string, string) dict"
  service_names_to_types :: "(string, string) dict"
  is_nodelet :: bool
  is_nodelet_manager :: bool
  nodelet_manager_name :: "string option"
  nodelet_names :: "string list"

definition NodeBuilder_init :: "string \<Rightarrow> NodeBuilder" where
  "NodeBuilder_init n =
     \<lparr> name = n, name_suffix = name_suffix_of n, name_base = name_base_of n,
       all_topic_names = [], topic_names_published = [], topic_names_subscribed = [],
       topic_names_to_types = [], service_names_to_types = [],
       is_nodelet = False, is_nodelet_manager = False,
       nodelet_manager_name = None, nodelet_names = [] \<rparr>"

definition add_topic_name ::
  "Filter \<Rightarrow> NodeBuilder \<Rightarrow> string \<Rightarrow> status \<Rightarrow> string \<Rightarrow> string option \<Rightarrow> NodeBuilder" where
  "add_topic_name topic_filter nb topic_name st topic_type remap =
     (if \<not> should_filter_out topic_filter topic_name
      then (let nb1 = nb\<lparr>all_topic_names := AList.update topic_name remap (all_topic_names nb)\<rparr>;
                nb2 = (case st of
                         Published \<Rightarrow>
                           nb1\<lparr>topic_names_published :=
                                 AList.update topic_name remap (topic_names_published nb1)\<rparr>
                       | Subscribed \<Rightarrow>
                           nb1\<lparr>topic_names_subscribed :=
                                 AList.update topic_name remap (topic_names_subscribed nb1)\<rparr>)
            in nb2\<lparr>topic_names_to_types :=
                     AList.update topic_name topic_type (topic_names_to_types nb2)\<rparr>)
      else nb)"

definition add_service_name_and_type ::
  "Filter \<Rightarrow> NodeBuilder \<Rightarrow> string \<Rightarrow> string \<Rightarrow> NodeBuilder" where
  "add_service_name_and_type service_filter nb service_name service_type =
     (if \<not> should_filter_out service_filter service_type
      then nb\<lparr>service_names_to_types :=
                AList.update service_name service_type (service_names_to_types nb)\<rparr>
      else nb)"

definition service_names :: "NodeBuilder \<Rightarrow> string list" where
  "service_names nb = remdups (dict_keys (service_names_to_types nb))"

text \<open>
  \<open>set([self.service_names_to_types[service_name] for service_name in self.service_names])\<close>:
  every name comes from the dict's own keys, so each lookup finds its type.
\<close>

definition service_types :: "NodeBuilder \<Rightarrow> string list" where
  "service_types nb =
     remdups (List.map_filter (map_of (service_names_to_types nb)) (service_names nb))"

text \<open>
  \<open>_gather_nodelet_manager_status\<close>: the loop runs over \<open>all_topic_names\<close>, the topics the
  node publishes or subscribes to, and returns at the first one typed \<open>bond/Status\<close>.
\<close>

fun gather_nodelet_manager_loop :: "string list \<Rightarrow> NodeBuilder \<Rightarrow> error + bool" where
  "gather_nodelet_manager_loop [] nb = Inr False"
| "gather_nodelet_manager_loop (topic_name # rest) nb =
     (case dict_getitem (topic_names_to_types nb) topic_name of
        Inl e \<Rightarrow> Inl e
      | Inr topic_type \<Rightarrow>
          if topic_type = ''bond/Status''
          then Inr (''nodelet/NodeletList'' \<in> set (service_types nb) \<and>
                    ''nodelet/NodeletLoad'' \<in> set (service_types nb) \<and>
                    ''nodelet/NodeletUnload'' \<in> set (service_types nb))
          else gather_nodelet_manager_loop rest nb)"

definition gather_nodelet_manager_status :: "NodeBuilder \<Rightarrow> error + bool" where
  "gather_nodelet_manager_status nb =
     gather_nodelet_manager_loop (dict_keys (all_topic_names nb)) nb"

fun gather_nodelet_loop :: "string list \<Rightarrow> NodeBuilder \<Rightarrow> error + bool" where
  "gather_nodelet_loop [] nb = Inr False"
| "gather_nodelet_loop (topic_name # rest) nb =
     (case dict_getitem (topic_names_to_types nb) topic_name of
        Inl e \<Rightarrow> Inl e
      | Inr topic_type \<Rightarrow>
          if topic_type = ''bond/Status'' then Inr (\<not> is_nodelet_manager nb)
          else gather_nodelet_loop rest nb)"

definition gather_nodelet_status :: "NodeBuilder \<Rightarrow> error + bool" where
  "gather_nodelet_status nb = gather_nodelet_loop (dict_keys (all_topic_names nb)) nb"

text \<open>The two classification steps of \<open>NodeBuilder.prepare\<close>, in the source's order.\<close>

definition prepare_classification :: "NodeBuilder \<Rightarrow> error + NodeBuilder" where
  "prepare_classification nb =
     (case gather_nodelet_manager_status nb of
        Inl e \<Rightarrow> Inl e
      | Inr m \<Rightarrow>
          (let nb1 = nb\<lparr>is_nodelet_manager := m\<rparr>
           in case gather_nodelet_status nb1 of
                Inl e \<Rightarrow> Inl e
              | Inr n \<Rightarrow> Inr (nb1\<lparr>is_nodelet := n\<rparr>)))"

text \<open>
  The node builders that fact collection can produce: a fresh builder, to which topics and
  services have been added in any order.
\<close>

inductive populated :: "Filter \<Rightarrow> Filter \<Rightarrow> NodeBuilder \<Rightarrow> bool"
  for topic_filter service_filter where
  fresh: "populated topic_filter service_filter (NodeBuilder_init n)"
| topic: "populated topic_filter service_filter nb \<Longrightarrow>
          populated topic_filter service_filter
            (add_topic_name topic_filter nb topic_name st topic_type remap)"
| service: "populated topic_filter service_filter nb \<Longrightarrow>
            populated topic_filter service_filter
              (add_service_name_and_type service_filter nb service_name service_type)"

text \<open>The nodes of the specification's scenario, and a manager that only subscribes.\<close>

definition nodelet_services :: "(string \<times> string) list" where
  "nodelet_services =
     [(''/N/list'', ''nodelet/NodeletList''), (''/N/load_nodelet'', ''nodelet/NodeletLoad''),
      (''/N/unload_nodelet'', ''nodelet/NodeletUnload'')]"

definition with_services :: "NodeBuilder \<Rightarrow> (string \<times> string) list \<Rightarrow> NodeBuilder" where
  "with_services nb services =
     foldl (\<lambda>b (s, ty). add_service_name_and_type (ServiceTypeFilter False False) b s ty) nb services"

definition scenario_manager_N :: NodeBuilder where
  "scenario_manager_N =
     with_services
       (add_topic_name (TopicFilter False False) (NodeBuilder_init ''/N'')
          ''/N/bond'' Published ''bond/Status'' None)
       nodelet_services"

definition scenario_node_M :: NodeBuilder where
  "scenario_node_M =
     add_topic_name (TopicFilter False False) (NodeBuilder_init ''/M'')
       ''/N/bond'' Published ''bond/Status'' None"

definition subscribing_manager :: NodeBuilder where
  "subscribing_manager =
     with_services
       (add_topic_name (TopicFilter False False) (NodeBuilder_init ''/N'')
          ''/N/bond'' Subscribed ''bond/Status'' None)
       nodelet_services"

section \<open>Token matcher (\<open>ROSSnapshot._match_token_types\<close>)\<close>

text \<open>
  \<open>io_names\<close> maps each deployed name to the catalog key matched so far (\<open>None\<close> while
  unset); \<open>spec_types\<close> is the catalog, key to declared type.  The type of a deployed
  item, \<open>io_builders[io_name].construct_type\<close>, is read from a bank of builders that is
  not part of the matcher: it is the parameter \<open>io_type_of\<close>.  The loop state is
  \<open>io_names\<close>, the set \<open>available_tokens\<close>, the flag \<open>io_is_valid\<close> and the log.
\<close>

definition unmatched_message :: "string \<Rightarrow> string \<Rightarrow> LoggerLevel \<times> string" where
  "unmatched_message node_name io_name =
     (WARNING, ''      Node '' @ node_name @ '' unmatched data '' @ io_name @ '' !'')"

text \<open>
  The inner \<open>for test in sorted(...)\<close> loops: the first candidate, in sorted order, whose
  declared type is the deployed item's type.  Every candidate is a key of the catalog.
\<close>

definition find_match :: "(string, string) dict \<Rightarrow> string \<Rightarrow> string list \<Rightarrow> string option" where
  "find_match spec_types io_type candidates =
     find (\<lambda>test. map_of spec_types test = Some io_type) (sort candidates)"

type_synonym match_state = "(string, string option) dict \<times> string list \<times> bool \<times> log"

definition match_step ::
  "string \<Rightarrow> (string \<Rightarrow> string) \<Rightarrow> (string, string) dict \<Rightarrow> match_state \<Rightarrow> string \<Rightarrow> match_state" where
  "match_step node_name io_type_of spec_types st io_name =
     (case st of (io_names, available_tokens, io_is_valid, lg) \<Rightarrow>
      (let io_type = io_type_of io_name;
           token = last_token io_name
       in if token \<notin> set available_tokens \<or> map_of spec_types token \<noteq> Some io_type
          then (let potential = filter (\<lambda>ss. sublist token ss) available_tokens;
                    remaining = filter (\<lambda>ss. ss \<notin> set potential) available_tokens;
                    (io_names1, available1) =
                      (case find_match spec_types io_type potential of
                         Some test \<Rightarrow>
                           (AList.update io_name (Some test) io_names,
                            removeAll test available_tokens)
                       | None \<Rightarrow> (io_names, available_tokens));
                    (io_names2, available2) =
                      (if map_of io_names1 io_name = Some None
                       then (case find_match spec_types io_type remaining of
                               Some test \<Rightarrow>
                                 (AList.update io_name (Some test) io_names1,
                                  removeAll test available1)
                             | None \<Rightarrow> (io_names1, available1))
                       else (io_names1, available1))
                in if map_of io_names2 io_name = Some None
                   then (io_names2, available2, False,
                         lg @ [unmatched_message node_name io_name])
                   else (io_names2, available2, io_is_valid, lg))
          else (AList.update io_name (Some token) io_names,
                removeAll token available_tokens, io_is_valid, lg)))"

text \<open>
  The whole function.  The result is Python's return value (\<open>None\<close> when the function
  falls off its end: no catalog and nothing deployed), the updated \<open>io_names\<close> and the log.
\<close>

definition match_token_types ::
  "string \<Rightarrow> (string, string option) dict \<Rightarrow> (string \<Rightarrow> string) \<Rightarrow> (string, string) dict option
     \<Rightarrow> bool option \<times> (string, string option) dict \<times> log" where
  "match_token_types node_name io_names io_type_of spec_types =
     (case spec_types of
        None \<Rightarrow> (if length io_names > 0 then (Some False, io_names, [])
                 else (None, io_names, []))
      | Some catalog \<Rightarrow>
          (case foldl (match_step node_name io_type_of catalog)
                  (io_names, remdups (dict_keys catalog), True, [])
                  (sort (dict_keys io_names)) of
             (io_names', available_tokens, io_is_valid, lg) \<Rightarrow> (Some io_is_valid, io_names', lg)))"

section \<open>Metamodels (chris\_ros\_modeling)\<close>

subsection \<open>\<open>_EntityMetamodel.update_attributes\<close>\<close>

text \<open>
  The attribute values the update tells apart.  The code is Python 2: \<open>str\<close> is a byte
  string, \<open>unicode\<close> is another type, given here by its code points, and \<open>bool\<close> is a
  subclass of \<open>int\<close>.  \<open>PObject\<close> stands for an object of any other kind (a bound method,
  a class, a float), known by a number.
\<close>

datatype pyval =
    PNone
  | PBool bool
  | PInt int
  | PStr string
  | PUnicode "nat list"
  | PList "pyval list"
  | PDict "(pyval \<times> pyval) list"
  | PSet "pyval list"
  | PObject nat

text \<open>
  What the update asks of Python's built-ins beyond these values is a parameter of the
  model: \<open>==\<close> with an object of another kind on one side, \<open>int(x)\<close> and \<open>str(x)\<close> of a
  value for which the model does not compute them, and \<open>update\<close> of a dict or set with an
  argument of another kind, which returns the exception it raised, if any, and the
  container as the call left it.
\<close>

record py_builtins =
  object_eq :: "pyval \<Rightarrow> pyval \<Rightarrow> bool"
  int_of :: "pyval \<Rightarrow> int option"
  str_of :: "pyval \<Rightarrow> error + string"
  update_with :: "pyval \<Rightarrow> pyval \<Rightarrow> error option \<times> pyval"

text \<open>The default codec is ASCII: a byte or a code point from 128 on does not convert.\<close>

definition ascii_decode :: "string \<Rightarrow> nat list option" where
  "ascii_decode s =
     (if list_all (\<lambda>c. (of_char c :: nat) < 128) s then Some (map of_char s) else None)"

definition ascii_encode :: "nat list \<Rightarrow> string option" where
  "ascii_encode u = (if list_all (\<lambda>n. n < 128) u then Some (map char_of u) else None)"

text \<open>
  Python's \<open>==\<close>.  A \<open>bool\<close> compares as the integer it is; a \<open>str\<close> equals a \<open>unicode\<close>
  when it decodes to it, and is unequal when it does not decode; lists compare element by
  element, dicts and sets regardless of order; values of different kinds are unequal.
\<close>

fun py_eq :: "py_builtins \<Rightarrow> pyval \<Rightarrow> pyval \<Rightarrow> bool" where
  "py_eq B (PObject a) v = object_eq B (PObject a) v"
| "py_eq B v (PObject b) = object_eq B v (PObject b)"
| "py_eq B PNone PNone = True"
| "py_eq B (PBool a) (PBool b) = (a = b)"
| "py_eq B (PBool a) (PInt b) = ((if a then 1 else 0) = b)"
| "py_eq B (PInt a) (PBool b) = (a = (if b then 1 else 0))"
| "py_eq B (PInt a) (PInt b) = (a = b)"
| "py_eq B (PStr a) (PStr b) = (a = b)"
| "py_eq B (PUnicode a) (PUnicode b) = (a = b)"
| "py_eq B (PStr a) (PUnicode b) = (ascii_decode a = Some b)"
| "py_eq B (PUnicode a) (PStr b) = (ascii_decode b = Some a)"
| "py_eq B (PList a) (PList b) = list_all2 (py_eq B) a b"
| "py_eq B (PDict a) (PDict b) =
     (list_all (\<lambda>(k, v). list_ex (\<lambda>(k', v'). py_eq B k k' \<and> py_eq B v v') b) a \<and>
      list_all (\<lambda>(k', v'). list_ex (\<lambda>(k, v). py_eq B k k' \<and> py_eq B v v') a) b)"
| "py_eq B (PSet a) (PSet b) =
     (list_all (\<lambda>x. list_ex (\<lambda>y. py_eq B x y) b) a \<and>
      list_all (\<lambda>y. list_ex (\<lambda>x. py_eq B x y) a) b)"
| "py_eq B _ _ = False"

text \<open>\<open>isinstance(val, int)\<close>, with the integer the value stands for.\<close>

definition as_int :: "pyval \<Rightarrow> int option" where
  "as_int v = (case v of PInt i \<Rightarrow> Some i | PBool b \<Rightarrow> Some (if b then 1 else 0) | _ \<Rightarrow> None)"

text \<open>\<open>int(x)\<close>; \<open>None\<close> stands for any exception, which the bare \<open>except\<close> swallows.\<close>

definition py_int :: "py_builtins \<Rightarrow> pyval \<Rightarrow> int option" where
  "py_int B v = (case as_int v of Some i \<Rightarrow> Some i | None \<Rightarrow> int_of B v)"

text \<open>
  \<open>str(x)\<close>, which is also what \<open>'{}'.format(x)\<close> puts in a message: a \<open>unicode\<close> is
  encoded with the default codec, and that raises on a code point that is not ASCII.
\<close>

definition py_str :: "py_builtins \<Rightarrow> pyval \<Rightarrow> error + string" where
  "py_str B v =
     (case v of
        PStr s \<Rightarrow> Inr s
      | PUnicode u \<Rightarrow> (case ascii_encode u of Some s \<Rightarrow> Inr s | None \<Rightarrow> Inl UnicodeEncodeError)
      | PNone \<Rightarrow> Inr ''None''
      | PBool b \<Rightarrow> Inr (if b then ''True'' else ''False'')
      | _ \<Rightarrow> str_of B v)"

text \<open>\<open>x in l\<close>: the value looked for is the left operand of each comparison.\<close>

definition py_in :: "py_builtins \<Rightarrow> pyval \<Rightarrow> pyval list \<Rightarrow> bool" where
  "py_in B v l = list_ex (py_eq B v) l"

text \<open>
  \<open>d.update(other)\<close> for two dicts and \<open>s.update(other)\<close> for a set and a set or list.
  A list may hold a value that cannot be hashed (a list, a dict or a set; an object of
  another kind is taken to be hashable): the call then raises \<open>TypeError\<close>, and the set
  keeps what was added before.
\<close>

fun dict_setitem ::
  "py_builtins \<Rightarrow> (pyval \<times> pyval) list \<Rightarrow> pyval \<Rightarrow> pyval \<Rightarrow> (pyval \<times> pyval) list" where
  "dict_setitem B [] k v = [(k, v)]"
| "dict_setitem B ((k', v') # rest) k v =
     (if py_eq B k' k then (k', v) # rest else (k', v') # dict_setitem B rest k v)"

definition set_add :: "py_builtins \<Rightarrow> pyval list \<Rightarrow> pyval \<Rightarrow> pyval list" where
  "set_add B s x = (if py_in B x s then s else s @ [x])"

definition hashable :: "pyval \<Rightarrow> bool" where
  "hashable v = (case v of PList l \<Rightarrow> False | PDict d \<Rightarrow> False | PSet s \<Rightarrow> False | _ \<Rightarrow> True)"

fun set_update_loop ::
  "py_builtins \<Rightarrow> pyval list \<Rightarrow> pyval list \<Rightarrow> error option \<times> pyval list" where
  "set_update_loop B s [] = (None, s)"
| "set_update_loop B s (x # xs) =
     (if hashable x then set_update_loop B (set_add B s x) xs else (Some TypeError, s))"

definition py_update :: "py_builtins \<Rightarrow> pyval \<Rightarrow> pyval \<Rightarrow> error option \<times> pyval" where
  "py_update B val other =
     (case (val, other) of
        (PDict d, PDict d') \<Rightarrow>
          (None, PDict (foldl (\<lambda>acc (k, v). dict_setitem B acc k v) d d'))
      | (PSet s, PSet s') \<Rightarrow> (None, PSet (foldl (set_add B) s s'))
      | (PSet s, PList l) \<Rightarrow> (let (raised, s') = set_update_loop B s l in (raised, PSet s'))
      | _ \<Rightarrow> update_with B val other)"

text \<open>
  An entity: the name of its class, what the class and its bases hold under a name
  (\<open>yaml_tag\<close>, a \<open>unicode\<close>; the docstring; the methods, which are objects) and the
  attributes of the instance.  \<open>__getattribute__\<close> looks in the instance first and in the
  class next, and raises \<open>AttributeError\<close>, which the update catches, when neither holds
  the name.  The entity classes define no property and no \<open>__slots__\<close>, so \<open>__setattr__\<close>
  always writes to the instance.  The names the interpreter answers itself (\<open>__dict__\<close>,
  \<open>__class__\<close>) are not part of the model.
\<close>

record entity =
  class_name :: string
  class_attributes :: "(string, pyval) dict"
  attributes :: "(string, pyval) dict"

definition getattribute :: "entity \<Rightarrow> string \<Rightarrow> pyval option" where
  "getattribute e key =
     (case map_of (attributes e) key of
        Some v \<Rightarrow> Some v
      | None \<Rightarrow> map_of (class_attributes e) key)"

definition setattr :: "entity \<Rightarrow> string \<Rightarrow> pyval \<Rightarrow> entity" where
  "setattr e key v = e\<lparr>attributes := AList.update key v (attributes e)\<rparr>"

text \<open>
  \<open>extend\<close>, \<open>append\<close> and \<open>update\<close> change the list, dict or set that the lookup found, in
  place: the one of the instance, or else the one the class holds.
\<close>

definition store_in_place :: "entity \<Rightarrow> string \<Rightarrow> pyval \<Rightarrow> entity" where
  "store_in_place e key v =
     (if key \<in> set (dict_keys (attributes e))
      then e\<lparr>attributes := AList.update key v (attributes e)\<rparr>
      else e\<lparr>class_attributes := AList.update key v (class_attributes e)\<rparr>)"

text \<open>
  The warning for a new attribute reads \<open>self.name\<close> and formats it; either can raise,
  inside the handler, and then nothing is logged or set.
\<close>

definition new_attribute_message ::
  "py_builtins \<Rightarrow> entity \<Rightarrow> string \<Rightarrow> error + (LoggerLevel \<times> string)" where
  "new_attribute_message B e key =
     (case getattribute e ''name'' of
        None \<Rightarrow> Inl AttributeError
      | Some n \<Rightarrow>
          (case py_str B n of
             Inl err \<Rightarrow> Inl err
           | Inr shown \<Rightarrow>
               Inr (WARNING, ''Adding new attribute '' @ key @ '' to '' @ shown
                      @ '' ('' @ class_name e @ '').'')))"

text \<open>
  The body of the loop over \<open>kwargs\<close>, for one key and its new value: the exception
  raised, if any, with the entity and the log as the body left them.
\<close>

definition update_attribute ::
  "py_builtins \<Rightarrow> entity \<times> log \<Rightarrow> string \<times> pyval \<Rightarrow> error option \<times> entity \<times> log" where
  "update_attribute B st kv =
     (case (st, kv) of ((e, lg), (key, new)) \<Rightarrow>
      (case getattribute e key of
         None \<Rightarrow>
           (case new_attribute_message B e key of
              Inl err \<Rightarrow> (Some err, e, lg)
            | Inr line \<Rightarrow> (None, setattr e key new, lg @ [line]))
       | Some val \<Rightarrow>
           if val = PNone then (None, setattr e key new, lg)
           else if py_eq B val new \<and> key \<noteq> ''version'' then (None, e, lg)
           else if new = PNone then (None, e, lg)
           else if key = ''version''
           then (case as_int val of
                   Some i \<Rightarrow>
                     (let val' = (case py_int B new of None \<Rightarrow> i | Some val2 \<Rightarrow> max i val2)
                      in (None, setattr e key (PInt (val' + 1)), lg))
                 | None \<Rightarrow>
                     (case py_str B val of
                        Inl err \<Rightarrow> (Some err, e, lg)
                      | Inr old_text \<Rightarrow>
                          (case py_str B new of
                             Inl err \<Rightarrow> (Some err, e, lg)
                           | Inr new_text \<Rightarrow>
                               (None, setattr e key (PStr (old_text @ ''_'' @ new_text)), lg))))
           else (case val of
                   PList l \<Rightarrow>
                     (case new of
                        PList l' \<Rightarrow> (None, store_in_place e key (PList (l @ l')), lg)
                      | _ \<Rightarrow> if \<not> py_in B new l
                             then (None, store_in_place e key (PList (l @ [new])), lg)
                             else (None, e, lg))
                 | PDict d \<Rightarrow>
                     (let (raised, val') = py_update B val new
                      in (raised, store_in_place e key val', lg))
                 | PSet s \<Rightarrow>
                     (let (raised, val') = py_update B val new
                      in (raised, store_in_place e key val', lg))
                 | PStr s \<Rightarrow>
                     (let new_list = [val];
                          new_list' = (case new of
                                         PList l' \<Rightarrow> new_list @ l'
                                       | _ \<Rightarrow> if \<not> py_in B new new_list then new_list @ [new]
                                              else new_list)
                      in (None, setattr e key (PList new_list'), lg))
                 | _ \<Rightarrow> (None, setattr e key new, lg))))"

text \<open>The loop stops at the first exception; what earlier keys changed stays changed.\<close>

fun update_attributes_loop ::
  "py_builtins \<Rightarrow> entity \<times> log \<Rightarrow> (string, pyval) dict \<Rightarrow> error option \<times> entity \<times> log" where
  "update_attributes_loop B st [] = (None, st)"
| "update_attributes_loop B st (kv # kwargs) =
     (case update_attribute B st kv of
        (Some err, st') \<Rightarrow> (Some err, st')
      | (None, st') \<Rightarrow> update_attributes_loop B st' kwargs)"

definition update_attributes ::
  "py_builtins \<Rightarrow> entity \<Rightarrow> (string, pyval) dict \<Rightarrow> error option \<times> entity \<times> log" where
  "update_attributes B e kwargs = update_attributes_loop B (e, []) kwargs"

text \<open>Builtins for the examples: the parameters are never consulted on strings.\<close>

definition trivial_builtins :: py_builtins where
  "trivial_builtins =
     \<lparr> object_eq = (\<lambda>v w. v = w), int_of = (\<lambda>v. None), str_of = (\<lambda>v. Inl OtherError),
       update_with = (\<lambda>v w. (Some TypeError, v)) \<rparr>"

text \<open>A topic entity as it is loaded from a file, with a version written as a string.\<close>

definition example_topic_entity :: entity where
  "example_topic_entity =
     \<lparr> class_name = ''Topic'',
       class_attributes = [(''yaml_tag'', PUnicode (map of_char ''!Topic''))],
       attributes = [(''name'', PStr ''/scan''), (''source'', PStr ''ros_snapshot''),
                     (''version'', PStr ''1.0''), (''construct_type'', PStr ''sensor_msgs/LaserScan'')] \<rparr>"

section \<open>Reconciliation engine (chris\_haros\_model\_merger)\<close>

subsection \<open>Deployment entities\<close>

text \<open>
  The \<open>source\<close> of an entity as \<open>_update_chris_model_version\<close> tells it apart: a list of
  tags, one string of comma-separated tags, or anything else (\<open>None\<close> on a fresh entity).
\<close>

datatype source = SourceList "string list" | SourceStr string | SourceOther

record EntityMetamodel =
  model_name :: string
  source :: source
  version :: int

record Topic = EntityMetamodel +
  model_construct_type :: "string option"
  model_publisher_node_names :: "string list"
  model_subscriber_node_names :: "string list"

definition Topic_new :: "string \<Rightarrow> Topic" where
  "Topic_new n =
     \<lparr> model_name = n, source = SourceOther, version = 0, model_construct_type = None,
       model_publisher_node_names = [], model_subscriber_node_names = [] \<rparr>"

datatype BankType =
    NODE | NODELET | NODELET_MANAGER | TOPIC | ACTION | SERVICE | PARAMETER | MACHINE
  | PACKAGE_SPECIFICATION | NODE_SPECIFICATION | MESSAGE_SPECIFICATION
  | SERVICE_SPECIFICATION | ACTION_SPECIFICATION

definition BankType_str :: "BankType \<Rightarrow> string" where
  "BankType_str bt =
     (case bt of
        NODE \<Rightarrow> ''BankType.NODE'' | NODELET \<Rightarrow> ''BankType.NODELET''
      | NODELET_MANAGER \<Rightarrow> ''BankType.NODELET_MANAGER'' | TOPIC \<Rightarrow> ''BankType.TOPIC''
      | ACTION \<Rightarrow> ''BankType.ACTION'' | SERVICE \<Rightarrow> ''BankType.SERVICE''
      | PARAMETER \<Rightarrow> ''BankType.PARAMETER'' | MACHINE \<Rightarrow> ''BankType.MACHINE''
      | PACKAGE_SPECIFICATION \<Rightarrow> ''BankType.PACKAGE_SPECIFICATION''
      | NODE_SPECIFICATION \<Rightarrow> ''BankType.NODE_SPECIFICATION''
      | MESSAGE_SPECIFICATION \<Rightarrow> ''BankType.MESSAGE_SPECIFICATION''
      | SERVICE_SPECIFICATION \<Rightarrow> ''BankType.SERVICE_SPECIFICATION''
      | ACTION_SPECIFICATION \<Rightarrow> ''BankType.ACTION_SPECIFICATION'')"

subsection \<open>\<open>_BaseRemodeler\<close>\<close>

definition REMODELER_SOURCE_NAME :: string where
  "REMODELER_SOURCE_NAME = ''haros_chris_model_merger''"

text \<open>Log lines: \<open>'[{}] ...'.format(TYPE, ...)\<close>; \<open>quoted\<close> puts a value between double quotes.\<close>

definition quoted :: "string \<Rightarrow> string" where
  "quoted s = [CHR 0x22] @ s @ [CHR 0x22]"

definition tagged :: "string \<Rightarrow> string \<Rightarrow> string" where
  "tagged cls_TYPE text = ''['' @ cls_TYPE @ ''] '' @ text"

definition opt_str :: "string option \<Rightarrow> string" where
  "opt_str v = (case v of None \<Rightarrow> ''None'' | Some s \<Rightarrow> s)"

definition incomplete_message :: "string \<Rightarrow> string \<Rightarrow> string \<Rightarrow> LoggerLevel \<times> string" where
  "incomplete_message cls_TYPE haros_name context =
     (ERROR, tagged cls_TYPE (''INCOMPLETE HAROS Model Information Encountered for ''
        @ quoted haros_name
        @ (if context \<noteq> [] then ''. [In '' @ context @ '']'' else [])
        @ ''.''))"

definition check_haros_name_is_complete :: "string \<Rightarrow> string \<Rightarrow> string \<Rightarrow> bool \<times> log" where
  "check_haros_name_is_complete cls_TYPE haros_name context =
     (let complete = (if CHR ''/'' \<in> set haros_name
                      then last_token (strip haros_name) \<noteq> ''?''
                      else strip haros_name \<noteq> ''?'')
      in (complete, if \<not> complete then [incomplete_message cls_TYPE haros_name context] else []))"

text \<open>
  \<open>_update_chris_model_version\<close>.  \<open>sorted(new_sources)\<close> of the set built from the old
  tags and the engine's tag is \<open>sort (remdups ...)\<close>.
\<close>

definition source_error_message :: "string \<Rightarrow> string \<Rightarrow> LoggerLevel \<times> string" where
  "source_error_message cls_TYPE n =
     (ERROR, tagged cls_TYPE (''Error Setting Source(s) for CHRIS Model '' @ quoted n @ ''.''))"

definition update_chris_model_version ::
  "string \<Rightarrow> 'a EntityMetamodel_scheme \<Rightarrow> bool \<Rightarrow> 'a EntityMetamodel_scheme \<times> log" where
  "update_chris_model_version cls_TYPE chris_model model_updated =
     (if model_updated
      then (let m = chris_model\<lparr>version := version chris_model + 1\<rparr>
            in case source m of
                 SourceList sources \<Rightarrow>
                   (m\<lparr>source := SourceList (sort (remdups (sources @ [REMODELER_SOURCE_NAME])))\<rparr>, [])
               | SourceStr s \<Rightarrow>
                   (m\<lparr>source := SourceStr (py_join '', ''
                        (sort (remdups (map strip (py_split CHR '','' s) @ [REMODELER_SOURCE_NAME]))))\<rparr>,
                    [])
               | SourceOther \<Rightarrow> (m, [source_error_message cls_TYPE (model_name m)]))
      else (chris_model, []))"

definition initialize_chris_model_version :: "'a EntityMetamodel_scheme \<Rightarrow> 'a EntityMetamodel_scheme" where
  "initialize_chris_model_version chris_model =
     chris_model\<lparr>version := 0, source := SourceStr REMODELER_SOURCE_NAME\<rparr>"

text \<open>
  The abstract methods and class attributes of a remodeler.  \<open>chris_model_banks\<close> lists the
  bank types of \<open>_chris_model_banks\<close> in the order the dict is iterated; \<open>create_entity\<close>
  is the bank's \<open>_create_entity\<close>; \<open>new_bank_type\<close> is the choice that
  \<open>_create_new_chris_model\<close> makes, with what it logs.
\<close>

record ('h, 'm) remodeler =
  cls_TYPE :: string
  adjust_haros_name :: "string \<Rightarrow> string"
  instance_id :: "'h \<Rightarrow> string"
  chris_model_banks :: "BankType list"
  helper_merge :: "BankType \<Rightarrow> 'h \<Rightarrow> 'm \<Rightarrow> 'm \<times> bool \<times> log"
  create_entity :: "BankType \<Rightarrow> string \<Rightarrow> 'm"
  new_bank_type :: "string \<Rightarrow> 'h \<Rightarrow> BankType \<times> log"
  helper_populate :: "BankType \<Rightarrow> string \<Rightarrow> 'h \<Rightarrow> 'm \<Rightarrow> 'm \<times> log"

type_synonym 'm banks = "(BankType, (string, 'm) dict) dict"

definition merge_haros_model_with_chris_model ::
  "('h, 'a EntityMetamodel_scheme) remodeler \<Rightarrow> BankType \<Rightarrow> string \<Rightarrow> 'h
     \<Rightarrow> 'a EntityMetamodel_scheme \<Rightarrow> 'a EntityMetamodel_scheme \<times> log" where
  "merge_haros_model_with_chris_model R bank_type haros_instance_name haros_model chris_model =
     (let lg0 = [(INFO, tagged (cls_TYPE R) (''Merging HAROS Instance with CHRIS Instance ''
                          @ quoted haros_instance_name @ ''.''))];
          (m, model_updated, lg1) = helper_merge R bank_type haros_model chris_model;
          (m', lg2) = update_chris_model_version (cls_TYPE R) m model_updated
      in (m', lg0 @ lg1 @ lg2))"

text \<open>The search of \<open>remodel\<close>: the first bank, in order, that holds the name.\<close>

fun find_chris_model ::
  "BankType list \<Rightarrow> 'm banks \<Rightarrow> string \<Rightarrow> error + (BankType \<times> 'm) option" where
  "find_chris_model [] banks n = Inr None"
| "find_chris_model (bt # rest) banks n =
     (case dict_getitem banks bt of
        Inl e \<Rightarrow> Inl e
      | Inr bank \<Rightarrow>
          (case map_of bank n of
             Some chris_model \<Rightarrow> Inr (Some (bt, chris_model))
           | None \<Rightarrow> find_chris_model rest banks n))"

definition store_model :: "'m banks \<Rightarrow> BankType \<Rightarrow> string \<Rightarrow> 'm \<Rightarrow> 'm banks" where
  "store_model banks bt n m = AList.map_entry bt (AList.update n m) banks"

text \<open>
  The body of the loop of \<open>remodel\<close> for one specification instance.  A model that is
  found is merged in place; one that is missing is created in its bank by the lookup,
  populated, and given version 0 and the engine's tag.
\<close>

definition remodel_instance ::
  "('h, 'a EntityMetamodel_scheme) remodeler \<Rightarrow> 'a EntityMetamodel_scheme banks \<times> log \<Rightarrow> 'h
     \<Rightarrow> error + ('a EntityMetamodel_scheme banks \<times> log)" where
  "remodel_instance R st haros_instance =
     (case st of (banks, lg) \<Rightarrow>
      (let haros_instance_name = adjust_haros_name R (instance_id R haros_instance);
           (complete, lg1) = check_haros_name_is_complete (cls_TYPE R) haros_instance_name
                               ''Check for Main Model''
       in if complete
          then (let lg2 = [(INFO, tagged (cls_TYPE R) (''Locating CHRIS Instance for ''
                                    @ quoted haros_instance_name @ ''.''))]
                in case find_chris_model (chris_model_banks R) banks haros_instance_name of
                     Inl e \<Rightarrow> Inl e
                   | Inr (Some (bt, chris_model)) \<Rightarrow>
                       (let (m, lg3) = merge_haros_model_with_chris_model R bt
                                         haros_instance_name haros_instance chris_model
                        in Inr (store_model banks bt haros_instance_name m, lg @ lg1 @ lg2 @ lg3))
                   | Inr None \<Rightarrow>
                       (let lg3 = [(ERROR, tagged (cls_TYPE R) (''Could not find CHRIS Instance for ''
                                          @ quoted haros_instance_name @ ''.''))];
                            (bt, lg4) = new_bank_type R haros_instance_name haros_instance
                        in case dict_getitem banks bt of
                             Inl e \<Rightarrow> Inl e
                           | Inr bank \<Rightarrow>
                               (let fresh = (case map_of bank haros_instance_name of
                                               Some m \<Rightarrow> m
                                             | None \<Rightarrow> create_entity R bt haros_instance_name);
                                    lg5 = [(INFO, tagged (cls_TYPE R)
                                              (''Attempting to Populate New Model ''
                                               @ quoted haros_instance_name @ ''...''))];
                                    (m, lg6) = helper_populate R bt haros_instance_name
                                                 haros_instance fresh
                                in Inr (store_model banks bt haros_instance_name
                                          (initialize_chris_model_version m),
                                        lg @ lg1 @ lg2 @ lg3 @ lg4 @ lg5 @ lg6))))
          else Inr (banks, lg @ lg1)))"

fun remodel ::
  "('h, 'a EntityMetamodel_scheme) remodeler \<Rightarrow> 'a EntityMetamodel_scheme banks \<times> log \<Rightarrow> 'h list
     \<Rightarrow> error + ('a EntityMetamodel_scheme banks \<times> log)" where
  "remodel R st [] = Inr st"
| "remodel R st (haros_instance # rest) =
     (case remodel_instance R st haros_instance of
        Inl e \<Rightarrow> Inl e
      | Inr st' \<Rightarrow> remodel R st' rest)"

subsection \<open>\<open>TopicRemodeler\<close>\<close>

text \<open>
  A topic of the specification side: its id, its type, and the ids of the nodes of its
  publisher and subscriber links.
\<close>

record haros_topic =
  topic_id :: string
  topic_type :: string
  topic_publishers :: "string list"
  topic_subscribers :: "string list"

definition Topic_TYPE :: string where
  "Topic_TYPE = ''TOPIC''"

definition type_conflict_message :: "string \<Rightarrow> string option \<Rightarrow> LoggerLevel \<times> string" where
  "type_conflict_message haros_topic_type chris_topic_type =
     (ERROR, tagged Topic_TYPE (''HAROS Topic'' @ [CHR 0x27] @ ''s Type '' @ quoted haros_topic_type
        @ '' does NOT Match CHRIS Topic'' @ [CHR 0x27] @ ''s Type ''
        @ quoted (opt_str chris_topic_type) @ ''.''))"

text \<open>
  One pass of \<open>_merge_haros_topic_links_with_chris_topic_nodes\<close> over the links of one
  role; the state is the node-name set of the deployment topic, the flag and the log.
\<close>

definition merge_link ::
  "string \<Rightarrow> string list \<times> bool \<times> log \<Rightarrow> string \<Rightarrow> string list \<times> bool \<times> log" where
  "merge_link role st haros_node_instance_name =
     (case st of (node_names, model_updated, lg) \<Rightarrow>
      (let (complete, lg1) = check_haros_name_is_complete Topic_TYPE haros_node_instance_name
                               ''Check for Topic Nodes''
       in if complete \<and> haros_node_instance_name \<notin> set node_names
          then (node_names @ [haros_node_instance_name], True,
                lg @ lg1 @ [(INFO, tagged Topic_TYPE (''Adding HAROS Topic'' @ [CHR 0x27] @ ''s ''
                               @ role @ '' Node '' @ quoted haros_node_instance_name
                               @ '' to CHRIS Topic Instance.''))])
          else (node_names, model_updated, lg @ lg1)))"

definition merge_haros_topic_links_with_chris_topic_nodes ::
  "haros_topic \<Rightarrow> Topic \<Rightarrow> Topic \<times> bool \<times> log" where
  "merge_haros_topic_links_with_chris_topic_nodes haros_topic_model chris_topic_model =
     (let (pubs, updated1, lg1) =
            foldl (merge_link ''Publisher'')
              (model_publisher_node_names chris_topic_model, False, [])
              (topic_publishers haros_topic_model);
          (subs, updated2, lg2) =
            foldl (merge_link ''Subscriber'')
              (model_subscriber_node_names chris_topic_model, updated1, lg1)
              (topic_subscribers haros_topic_model)
      in (chris_topic_model\<lparr>model_publisher_node_names := pubs,
                             model_subscriber_node_names := subs\<rparr>, updated2, lg2))"

definition Topic_helper_merge :: "BankType \<Rightarrow> haros_topic \<Rightarrow> Topic \<Rightarrow> Topic \<times> bool \<times> log" where
  "Topic_helper_merge bank_type haros_model chris_model =
     (let haros_topic_type = topic_type haros_model;
          chris_topic_type = model_construct_type chris_model;
          lg0 = (if Some haros_topic_type \<noteq> chris_topic_type
                 then [type_conflict_message haros_topic_type chris_topic_type] else []);
          (m, updated, lg1) = merge_haros_topic_links_with_chris_topic_nodes haros_model chris_model
      in (m, updated, lg0 @ lg1))"

definition Topic_helper_populate ::
  "BankType \<Rightarrow> string \<Rightarrow> haros_topic \<Rightarrow> Topic \<Rightarrow> Topic \<times> log" where
  "Topic_helper_populate bank_type instance_name haros_model new_chris_model_instance =
     (let (m, updated, lg) =
            merge_haros_topic_links_with_chris_topic_nodes haros_model
              (new_chris_model_instance\<lparr>model_construct_type := Some (topic_type haros_model)\<rparr>)
      in (m, lg))"

definition TopicRemodeler :: "(haros_topic, Topic) remodeler" where
  "TopicRemodeler =
     \<lparr> cls_TYPE = Topic_TYPE,
       adjust_haros_name = (\<lambda>haros_name. haros_name),
       instance_id = topic_id,
       chris_model_banks = [TOPIC],
       helper_merge = Topic_helper_merge,
       create_entity = (\<lambda>bt n. Topic_new n),
       new_bank_type = (\<lambda>instance_name haros_instance.
          (TOPIC, [(INFO, tagged Topic_TYPE (''Create new chris model from base_remodeler type=''
                              @ BankType_str TOPIC @ '' '' @ quoted instance_name @ ''...''))])),
       helper_populate = Topic_helper_populate \<rparr>"

text \<open>The merge scenario of the specification, and a specification topic named \<open>/robot/?\<close>.\<close>

definition conflict_chris_topic :: Topic where
  "conflict_chris_topic =
     \<lparr> model_name = ''/scan'', source = SourceStr ''ros_snapshot'', version = 3,
       model_construct_type = Some ''A/C'',
       model_publisher_node_names = [''/laser''], model_subscriber_node_names = [''/slam''] \<rparr>"

definition conflict_haros_topic :: haros_topic where
  "conflict_haros_topic =
     \<lparr> topic_id = ''/scan'', topic_type = ''A/B'',
       topic_publishers = [''/laser''], topic_subscribers = [''/slam'', ''/robot/?''] \<rparr>"

definition incomplete_haros_topic :: haros_topic where
  "incomplete_haros_topic =
     \<lparr> topic_id = ''/robot/?'', topic_type = ''A/B'',
       topic_publishers = [''/laser''], topic_subscribers = [] \<rparr>"

definition scenario_banks :: "Topic banks" where
  "scenario_banks = [(TOPIC, [(''/scan'', conflict_chris_topic)])]"

text \<open>
  A specification topic brings something new for a set of node names when one of its
  links names a complete node name that the set does not hold yet.
\<close>

definition new_links :: "string list \<Rightarrow> string list \<Rightarrow> bool" where
  "new_links node_names links =
     list_ex (\<lambda>x. fst (check_haros_name_is_complete Topic_TYPE x ''Check for Topic Nodes'')
                  \<and> x \<notin> set node_names) links"

subsection \<open>\<open>NodeRemodeler\<close>\<close>

text \<open>
  The deployment node.  \<open>launch_file\<close> and \<open>client_services\<close> are attributes that only a
  merge creates (\<open>None\<close> until then).  The dicts map a name to the type (or remapped name)
  recorded for it, which may be \<open>None\<close>.
\<close>

record Node = EntityMetamodel +
  node :: "string option"
  cmdline :: "string list option"
  launch_file :: "string option"
  set_parameter_names :: "(string, string option) dict"
  read_parameter_names :: "(string, string option) dict"
  provided_services :: "(string, string option) dict"
  client_services :: "(string, string option) dict option"
  published_topic_names :: "(string, string option) dict"
  subscribed_topic_names :: "(string, string option) dict"






















section \<open>Verified properties\<close>

subsection \<open>Action promotion\<close>

text \<open>
  C3. The five topics \<open>/r/move/goal\<close> (\<open>pkg/MoveActionGoal\<close>), \<open>/r/move/cancel\<close>
  (\<open>actionlib_msgs/GoalID\<close>), \<open>/r/move/feedback\<close> (\<open>pkg/MoveActionFeedback\<close>),
  \<open>/r/move/result\<close> (\<open>pkg/MoveActionResult\<close>) and \<open>/r/move/status\<close>
  (\<open>actionlib_msgs/GoalStatusArray\<close>) are in the topic registry.  Action extraction
  returns without an exception, with exactly one action builder, named \<open>/r/move\<close>, whose
  construct type is \<open>pkg/Move\<close>, and the topic registry it leaves is empty: all five
  topics are gone from it.
\<close>

theorem action_promotion_scenario:
  "dict_keys (names_to_entity_builders (bank_of_topic_types move_topic_types)) =
     [''/r/move/goal'', ''/r/move/cancel'', ''/r/move/feedback'', ''/r/move/result'',
      ''/r/move/status'']
   \<and> (case extract_action_builders_from_internal_topic_builders
             (bank_of_topic_types move_topic_types) of
        Inl e \<Rightarrow> False
      | Inr (names_to_action_builders, bank', lg) \<Rightarrow>
          map (\<lambda>(action_name, ab). (action_name, name ab, fst (construct_type ab)))
              names_to_action_builders
            = [(''/r/move'', ''/r/move'', Inr (Some ''pkg/Move''))]
          \<and> names_to_entity_builders bank' = [])"
  by code_simp

subsection \<open>Names and strings\<close>
lemma py_split_not_Nil: "py_split sep s \<noteq> []"
  by (induction s) (auto split: list.splits)

lemma py_split_append_sep:
  "py_split sep (xs @ sep # ys) = py_split sep xs @ py_split sep ys"
proof (induction xs)
  case Nil
  show ?case by simp
next
  case (Cons c xs)
  obtain t ts where ts: "py_split sep xs = t # ts"
    using py_split_not_Nil [of sep xs] by (cases "py_split sep xs") auto
  show ?case using Cons ts by simp
qed

lemma py_split_no_sep: "sep \<notin> set t \<Longrightarrow> py_split sep t = [t]"
  by (induction t) auto

lemma py_join_Cons: "ts \<noteq> [] \<Longrightarrow> py_join sep (t # ts) = t @ sep @ py_join sep ts"
  by (cases ts) auto

lemma py_join_Cons_Cons: "py_join sep ((c # t) # ts) = c # py_join sep (t # ts)"
  by (cases ts) auto

lemma py_join_py_split: "py_join [sep] (py_split sep s) = s"
proof (induction s)
  case Nil
  show ?case by simp
next
  case (Cons c cs)
  obtain t ts where ts: "py_split sep cs = t # ts"
    using py_split_not_Nil [of sep cs] by (cases "py_split sep cs") auto
  show ?case
  proof (cases "c = sep")
    case True
    then show ?thesis using Cons py_split_not_Nil [of sep cs] by (simp add: py_join_Cons)
  next
    case False
    then show ?thesis using Cons ts by (simp add: py_join_Cons_Cons)
  qed
qed

lemma name_suffix_of_append:
  "CHR ''/'' \<notin> set t \<Longrightarrow> name_suffix_of (b @ CHR ''/'' # t) = CHR ''/'' # t"
  by (simp add: name_suffix_of_def last_token_def py_split_append_sep py_split_no_sep)

lemma name_base_of_append:
  "CHR ''/'' \<notin> set t \<Longrightarrow> name_base_of (b @ CHR ''/'' # t) = b"
  by (simp add: name_base_of_def py_split_append_sep py_split_no_sep butlast_append py_join_py_split)

lemma endswith_append: "endswith (p @ s) s"
  by (simp add: endswith_def suffix_def)

lemma name_suffix_cluster [simp]:
  "name_suffix_of (b @ ''/goal'') = ''/goal''"
  "name_suffix_of (b @ ''/cancel'') = ''/cancel''"
  "name_suffix_of (b @ ''/feedback'') = ''/feedback''"
  "name_suffix_of (b @ ''/result'') = ''/result''"
  "name_suffix_of (b @ ''/status'') = ''/status''"
  using name_suffix_of_append [of "''goal''" b] name_suffix_of_append [of "''cancel''" b]
    name_suffix_of_append [of "''feedback''" b] name_suffix_of_append [of "''result''" b]
    name_suffix_of_append [of "''status''" b]
  by simp_all

lemma name_base_cluster [simp]:
  "name_base_of (b @ ''/goal'') = b"
  "name_base_of (b @ ''/cancel'') = b"
  "name_base_of (b @ ''/feedback'') = b"
  "name_base_of (b @ ''/result'') = b"
  "name_base_of (b @ ''/status'') = b"
  using name_base_of_append [of "''goal''" b] name_base_of_append [of "''cancel''" b]
    name_base_of_append [of "''feedback''" b] name_base_of_append [of "''result''" b]
    name_base_of_append [of "''status''" b]
  by simp_all

lemma bank_cluster:
  "bank_of_topic_types (cluster_topic_types b tg tc tf tr ts) =
    \<lparr> topic_types = cluster_topic_types b tg tc tf tr ts,
      names_to_entity_builders =
        [(b @ ''/goal'', \<lparr> name = b @ ''/goal'', name_suffix = ''/goal'', name_base = b,
            topic_construct_type = Some tg, published = [], subscribed = [] \<rparr>),
         (b @ ''/cancel'', \<lparr> name = b @ ''/cancel'', name_suffix = ''/cancel'', name_base = b,
            topic_construct_type = Some tc, published = [], subscribed = [] \<rparr>),
         (b @ ''/feedback'', \<lparr> name = b @ ''/feedback'', name_suffix = ''/feedback'', name_base = b,
            topic_construct_type = Some tf, published = [], subscribed = [] \<rparr>),
         (b @ ''/result'', \<lparr> name = b @ ''/result'', name_suffix = ''/result'', name_base = b,
            topic_construct_type = Some tr, published = [], subscribed = [] \<rparr>),
         (b @ ''/status'', \<lparr> name = b @ ''/status'', name_suffix = ''/status'', name_base = b,
            topic_construct_type = Some ts, published = [], subscribed = [] \<rparr>)] \<rparr>"
  by (simp add: bank_of_topic_types_def cluster_topic_types_def TopicBankBuilder_getitem_def
      TopicBankBuilder_init_def create_entity_builder_def add_entity_builder_def
      find_topic_type_def TopicBuilder_init_def Let_def)


lemma TOPIC_SUFFIXES_eq:
  "TOPIC_SUFFIXES = [''/cancel'', ''/goal'', ''/feedback'', ''/result'', ''/status'']"
  by (simp add: TOPIC_SUFFIXES_def CLIENT_PUBLISHED_TOPIC_SUFFIXES_def
      SERVER_PUBLISHED_TOPIC_SUFFIXES_def)

lemma group_cluster:
  "foldl group_topic_builder []
     (dict_values (names_to_entity_builders
        (bank_of_topic_types (cluster_topic_types b tg tc tf tr ts))))
   = [(b, cluster_action_builder b tg tc tf tr ts)]"
  by (simp add: bank_cluster cluster_action_builder_def dict_values_def group_topic_builder_def
      test_potential_action_topic_builder_def TOPIC_SUFFIXES_eq dict_keys_def Let_def)

lemma cluster_suffix_builders:
  "topic_name_suffixes_to_builders (cluster_action_builder b tg tc tf tr ts) =
     [(''/goal'', \<lparr> name = b @ ''/goal'', name_suffix = ''/goal'', name_base = b,
            topic_construct_type = Some tg, published = [], subscribed = [] \<rparr>),
      (''/cancel'', \<lparr> name = b @ ''/cancel'', name_suffix = ''/cancel'', name_base = b,
            topic_construct_type = Some tc, published = [], subscribed = [] \<rparr>),
      (''/feedback'', \<lparr> name = b @ ''/feedback'', name_suffix = ''/feedback'', name_base = b,
            topic_construct_type = Some tf, published = [], subscribed = [] \<rparr>),
      (''/result'', \<lparr> name = b @ ''/result'', name_suffix = ''/result'', name_base = b,
            topic_construct_type = Some tr, published = [], subscribed = [] \<rparr>),
      (''/status'', \<lparr> name = b @ ''/status'', name_suffix = ''/status'', name_base = b,
            topic_construct_type = Some ts, published = [], subscribed = [] \<rparr>)]"
  by (simp add: bank_cluster cluster_action_builder_def dict_values_def add_topic_builder_def
      ActionBuilder_init_def)

lemma cluster_name_builders:
  "topic_names_to_builders (cluster_action_builder b tg tc tf tr ts) =
     names_to_entity_builders (bank_of_topic_types (cluster_topic_types b tg tc tf tr ts))"
  by (simp add: bank_cluster cluster_action_builder_def dict_values_def add_topic_builder_def
      ActionBuilder_init_def)

lemma validate_cluster:
  "validate_action_topic_builders
     (cluster_action_builder b (pg @ ''ActionGoal'') tc (pf @ ''ActionFeedback'')
        (pr @ ''ActionResult'') ts) = Inr True"
  using endswith_append [of pg "''ActionGoal''"] endswith_append [of pf "''ActionFeedback''"]
    endswith_append [of pr "''ActionResult''"]
  by (simp add: validate_action_topic_builders_def cluster_suffix_builders cluster_name_builders
      bank_cluster validate_topic_builders_have_required_suffixes_def dict_values_def
      TOPIC_SUFFIXES_eq validate_core_topic_builders_have_required_types_def
      CORE_TOPIC_SUFFIXES_TO_TYPE_TOKENS_def dict_keys_def dict_getitem_def)

lemma remove_cluster:
  "remove_action_topic_builders
     (names_to_entity_builders (bank_of_topic_types (cluster_topic_types b tg tc tf tr ts)))
     (dict_values (names_to_entity_builders (bank_of_topic_types (cluster_topic_types b tg tc tf tr ts))))
   = Inr []"
  by (simp add: bank_cluster dict_values_def dict_pop_def)

subsection \<open>Clusters whose core types disagree on the prefix\<close>

text \<open>
  Validation looks only at the ends of the core types.  Whatever the stems before
  \<open>ActionGoal\<close>, \<open>ActionFeedback\<close> and \<open>ActionResult\<close> are, equal or not, a five-topic
  cluster is accepted: the extraction returns one action builder, named after the base,
  and an empty topic registry.
\<close>

lemma cluster_promoted_whatever_the_stems:
  "\<exists>lg. extract_action_builders_from_internal_topic_builders
          (bank_of_topic_types
             (cluster_topic_types b (pg @ ''ActionGoal'') tc (pf @ ''ActionFeedback'')
                (pr @ ''ActionResult'') ts))
        = Inr ([(b, cluster_action_builder b (pg @ ''ActionGoal'') tc (pf @ ''ActionFeedback'')
                      (pr @ ''ActionResult'') ts)],
               (bank_of_topic_types
                  (cluster_topic_types b (pg @ ''ActionGoal'') tc (pf @ ''ActionFeedback'')
                     (pr @ ''ActionResult'') ts))\<lparr>names_to_entity_builders := []\<rparr>,
               lg)"
  by (simp add: extract_action_builders_from_internal_topic_builders_def group_cluster
      validate_cluster cluster_name_builders remove_cluster)

text \<open>
  C4. The rejection scenario: the cluster of the promotion scenario with \<open>/r/move/result\<close>
  typed \<open>other/MoveActionResult\<close>.  The claim asks for no action, no exception and five
  plain topics.  The code does otherwise: validation returns \<open>True\<close> for the cluster, the
  extraction creates the action builder \<open>/r/move\<close> and removes all five topics from the
  registry.  The conflict of the prefixes shows only when the construct type of the
  builder is read: the first read raises \<open>ValueError\<close> after storing the stem of the first
  core type, \<open>pkg/Move\<close>, and every later read returns that stem.
\<close>

theorem mismatched_prefix_scenario:
  "(case extract_action_builders_from_internal_topic_builders
           (bank_of_topic_types mismatch_topic_types) of
      Inl e \<Rightarrow> False
    | Inr (names_to_action_builders, bank', lg) \<Rightarrow>
        map (\<lambda>(action_name, ab).
               (action_name, name ab, validate_action_topic_builders ab,
                fst (construct_type ab),
                action_construct_type (snd (construct_type ab)),
                fst (construct_type (snd (construct_type ab)))))
            names_to_action_builders
          = [(''/r/move'', ''/r/move'', Inr True,
              Inl ValueError, Some ''pkg/Move'', Inr (Some ''pkg/Move''))]
        \<and> names_to_entity_builders bank' = [])"
  by code_simp

subsection \<open>Counting appearances\<close>

lemma in_dict_keys: "k \<in> set (dict_keys d) \<longleftrightarrow> (\<exists>v. map_of d k = Some v)"
proof -
  have "k \<in> set (dict_keys d) \<longleftrightarrow> map_of d k \<noteq> None"
    by (simp add: dict_keys_def map_of_eq_None_iff)
  then show ?thesis by auto
qed

lemma map_of_add_or_increment:
  "map_of (add_or_increment_dictionary_count d k) =
     (map_of d)(k \<mapsto> (case map_of d k of None \<Rightarrow> 1 | Some c \<Rightarrow> c + 1))"
proof (cases "map_of d k")
  case None
  then have "k \<notin> set (dict_keys d)"
    by (simp add: dict_keys_def map_of_eq_None_iff)
  then show ?thesis using None
    by (simp add: add_or_increment_dictionary_count_def Let_def update_conv')
next
  case (Some c)
  then have "k \<in> set (dict_keys d)"
    by (auto simp: dict_keys_def dest: map_of_SomeD intro: rev_image_eqI)
  then show ?thesis using Some
    by (simp add: add_or_increment_dictionary_count_def Let_def update_conv')
qed

lemma count_of_add_or_increment:
  "count_of (add_or_increment_dictionary_count d k) n = count_of d n + (if n = k then 1 else 0)"
  by (simp add: count_of_def map_of_add_or_increment split: option.splits)

lemma list_all_update:
  "list_all P d \<Longrightarrow> P (k, v) \<Longrightarrow> list_all P (AList.update k v d)"
  by (induction d) auto

lemma counts_ok_lookup: "counts_ok d \<Longrightarrow> map_of d n = Some c \<Longrightarrow> 1 \<le> c"
  by (auto simp: counts_ok_def list_all_iff dest: map_of_SomeD)

lemma counts_ok_add_or_increment:
  assumes "counts_ok d"
  shows "counts_ok (add_or_increment_dictionary_count d k)"
proof (cases "map_of d k")
  case None
  then have "k \<notin> set (dict_keys d)"
    by (simp add: dict_keys_def map_of_eq_None_iff)
  then show ?thesis using assms None
    by (simp add: add_or_increment_dictionary_count_def Let_def counts_ok_def distinct_update
        list_all_update update_conv')
next
  case (Some c)
  then have "k \<in> set (dict_keys d)"
    by (auto simp: dict_keys_def dest: map_of_SomeD intro: rev_image_eqI)
  moreover have "1 \<le> c" using assms Some by (rule counts_ok_lookup)
  ultimately show ?thesis using assms Some
    by (simp add: add_or_increment_dictionary_count_def Let_def counts_ok_def distinct_update
        list_all_update)
qed

lemma counts_ok_foldl:
  "counts_ok d \<Longrightarrow> counts_ok (foldl add_or_increment_dictionary_count d ks)"
  by (induction ks arbitrary: d) (auto simp: counts_ok_add_or_increment)

lemma count_of_foldl:
  "count_of (foldl add_or_increment_dictionary_count d ks) n = count_of d n + int (count_list ks n)"
  by (induction ks arbitrary: d) (auto simp: count_of_add_or_increment)

lemma count_list_distinct: "distinct ks \<Longrightarrow> count_list ks n = (if n \<in> set ks then 1 else 0)"
  by (induction ks) auto

lemma count_of_foldl_distinct:
  "distinct ks \<Longrightarrow>
   count_of (foldl add_or_increment_dictionary_count d ks) n
     = count_of d n + (if n \<in> set ks then 1 else 0)"
  by (simp add: count_of_foldl count_list_distinct)

lemma count_published_error:
  "count_published flt builders sfxs c = Inl e \<Longrightarrow> e = KeyError"
  by (induction sfxs arbitrary: c) (auto simp: dict_getitem_def split: option.splits sum.splits)

lemma count_subscribed_error:
  "count_subscribed flt builders sfxs c = Inl e \<Longrightarrow> e = KeyError"
  by (induction sfxs arbitrary: c) (auto simp: dict_getitem_def split: option.splits sum.splits)

lemma count_published_missing:
  "\<not> set sfxs \<subseteq> set (dict_keys builders) \<Longrightarrow> count_published flt builders sfxs c = Inl KeyError"
proof (induction sfxs arbitrary: c)
  case Nil
  then show ?case by simp
next
  case (Cons s sfxs)
  show ?case
  proof (cases "map_of builders s")
    case None
    then show ?thesis by (simp add: dict_getitem_def)
  next
    case (Some tb)
    then have "s \<in> set (dict_keys builders)"
      by (auto simp: dict_keys_def dest: map_of_SomeD intro: rev_image_eqI)
    with Cons.prems have "\<not> set sfxs \<subseteq> set (dict_keys builders)" by auto
    then show ?thesis using Some Cons.IH by (simp add: dict_getitem_def)
  qed
qed

lemma count_subscribed_missing:
  "\<not> set sfxs \<subseteq> set (dict_keys builders) \<Longrightarrow> count_subscribed flt builders sfxs c = Inl KeyError"
proof (induction sfxs arbitrary: c)
  case Nil
  then show ?case by simp
next
  case (Cons s sfxs)
  show ?case
  proof (cases "map_of builders s")
    case None
    then show ?thesis by (simp add: dict_getitem_def)
  next
    case (Some tb)
    then have "s \<in> set (dict_keys builders)"
      by (auto simp: dict_keys_def dest: map_of_SomeD intro: rev_image_eqI)
    with Cons.prems have "\<not> set sfxs \<subseteq> set (dict_keys builders)" by auto
    then show ?thesis using Some Cons.IH by (simp add: dict_getitem_def)
  qed
qed

lemma count_published_present:
  assumes "set sfxs \<subseteq> set (dict_keys builders)" "counts_ok c"
  shows "\<exists>r. count_published flt builders sfxs c = Inr r \<and> counts_ok r \<and>
           (\<forall>n. count_of r n = count_of c n +
              int (length (filter (\<lambda>s. case map_of builders s of
                                None \<Rightarrow> False
                              | Some tb \<Rightarrow> n \<in> set (publisher_node_names flt tb)) sfxs)))"
  using assms
proof (induction sfxs arbitrary: c)
  case Nil
  then show ?case by simp
next
  case (Cons s sfxs)
  from Cons.prems(1) obtain tb where tb: "map_of builders s = Some tb"
    by (auto simp: in_dict_keys)
  let ?c' = "foldl add_or_increment_dictionary_count c (publisher_node_names flt tb)"
  have ok: "counts_ok ?c'" using Cons.prems(2) by (rule counts_ok_foldl)
  have sub: "set sfxs \<subseteq> set (dict_keys builders)" using Cons.prems(1) by simp
  from Cons.IH [OF sub ok] obtain r where
    r: "count_published flt builders sfxs ?c' = Inr r" "counts_ok r"
       "\<And>n. count_of r n = count_of ?c' n +
              int (length (filter (\<lambda>s. case map_of builders s of
                                None \<Rightarrow> False
                              | Some tb \<Rightarrow> n \<in> set (publisher_node_names flt tb)) sfxs))"
    by blast
  have d: "distinct (publisher_node_names flt tb)" by (simp add: publisher_node_names_def)
  show ?case
    using r tb by (auto simp: dict_getitem_def count_of_foldl_distinct [OF d])
qed

lemma count_subscribed_present:
  assumes "set sfxs \<subseteq> set (dict_keys builders)" "counts_ok c"
  shows "\<exists>r. count_subscribed flt builders sfxs c = Inr r \<and> counts_ok r \<and>
           (\<forall>n. count_of r n = count_of c n +
              int (length (filter (\<lambda>s. case map_of builders s of
                                None \<Rightarrow> False
                              | Some tb \<Rightarrow> n \<in> set (subscriber_node_names flt tb)) sfxs)))"
  using assms
proof (induction sfxs arbitrary: c)
  case Nil
  then show ?case by simp
next
  case (Cons s sfxs)
  from Cons.prems(1) obtain tb where tb: "map_of builders s = Some tb"
    by (auto simp: in_dict_keys)
  let ?c' = "foldl add_or_increment_dictionary_count c (subscriber_node_names flt tb)"
  have ok: "counts_ok ?c'" using Cons.prems(2) by (rule counts_ok_foldl)
  have sub: "set sfxs \<subseteq> set (dict_keys builders)" using Cons.prems(1) by simp
  from Cons.IH [OF sub ok] obtain r where
    r: "count_subscribed flt builders sfxs ?c' = Inr r" "counts_ok r"
       "\<And>n. count_of r n = count_of ?c' n +
              int (length (filter (\<lambda>s. case map_of builders s of
                                None \<Rightarrow> False
                              | Some tb \<Rightarrow> n \<in> set (subscriber_node_names flt tb)) sfxs))"
    by blast
  have d: "distinct (subscriber_node_names flt tb)" by (simp add: subscriber_node_names_def)
  show ?case
    using r tb by (auto simp: dict_getitem_def count_of_foldl_distinct [OF d])
qed

lemma gather_valid_sets:
  "distinct (map fst d) \<Longrightarrow>
   set (fst (gather_valid_action_node_names_based_on_appearance_counts d))
     = {n. map_of d n = Some NUM_TOPIC_SUFFIXES} \<and>
   set (snd (gather_valid_action_node_names_based_on_appearance_counts d))
     = invalid_node_message ` {n. \<exists>c. map_of d n = Some c \<and> c \<noteq> NUM_TOPIC_SUFFIXES}"
proof (induction d)
  case Nil
  then show ?case by simp
next
  case (Cons p d)
  obtain k c where p: "p = (k, c)" by (cases p)
  from Cons.prems p have k: "map_of d k = None" and dd: "distinct (map fst d)"
    by (auto simp: map_of_eq_None_iff)
  obtain V L where VL: "gather_valid_action_node_names_based_on_appearance_counts d = (V, L)"
    by (cases "gather_valid_action_node_names_based_on_appearance_counts d")
  from Cons.IH [OF dd] VL have
    V: "set V = {n. map_of d n = Some NUM_TOPIC_SUFFIXES}" and
    L: "set L = invalid_node_message ` {n. \<exists>c. map_of d n = Some c \<and> c \<noteq> NUM_TOPIC_SUFFIXES}"
    by simp_all
  show ?case
  proof (cases "c = NUM_TOPIC_SUFFIXES")
    case True
    then show ?thesis using p VL V L k by (auto simp: image_iff)
  next
    case False
    then show ?thesis using p VL V L k by (auto simp: image_iff)
  qed
qed

lemma invalid_node_message_inj: "invalid_node_message n = invalid_node_message m \<longleftrightarrow> n = m"
  by (simp add: invalid_node_message_def)

lemma NUM_TOPIC_SUFFIXES_eq: "NUM_TOPIC_SUFFIXES = 5"
  by (simp add: NUM_TOPIC_SUFFIXES_def TOPIC_SUFFIXES_def CLIENT_PUBLISHED_TOPIC_SUFFIXES_def
      SERVER_PUBLISHED_TOPIC_SUFFIXES_def)

lemma has_all_suffixes_iff:
  "has_all_suffixes ab \<longleftrightarrow>
     set CLIENT_PUBLISHED_TOPIC_SUFFIXES \<subseteq> set (dict_keys (topic_name_suffixes_to_builders ab)) \<and>
     set SERVER_PUBLISHED_TOPIC_SUFFIXES \<subseteq> set (dict_keys (topic_name_suffixes_to_builders ab))"
  by (auto simp: has_all_suffixes_def TOPIC_SUFFIXES_def list_all_iff)

lemma counts_ok_Nil: "counts_ok []"
  by (simp add: counts_ok_def)

lemma count_of_Nil: "count_of [] n = 0"
  by (simp add: count_of_def)

lemma count_action_node_appearances_present:
  assumes "set pubs \<subseteq> set (dict_keys (topic_name_suffixes_to_builders ab))"
    and "set subs \<subseteq> set (dict_keys (topic_name_suffixes_to_builders ab))"
  shows "\<exists>r. count_action_node_appearances flt ab pubs subs [] = Inr r \<and> counts_ok r \<and>
           (\<forall>n. count_of r n =
                  spec_appearance_count flt (topic_name_suffixes_to_builders ab) pubs subs n)"
proof -
  from count_published_present [OF assms(1) counts_ok_Nil, of flt] obtain r1 where
    r1: "count_published flt (topic_name_suffixes_to_builders ab) pubs [] = Inr r1" "counts_ok r1"
        "\<And>n. count_of r1 n = count_of [] n +
              int (length (filter (\<lambda>s. case map_of (topic_name_suffixes_to_builders ab) s of
                                None \<Rightarrow> False
                              | Some tb \<Rightarrow> n \<in> set (publisher_node_names flt tb)) pubs))"
    by blast
  from count_subscribed_present [OF assms(2) r1(2), of flt] obtain r2 where
    r2: "count_subscribed flt (topic_name_suffixes_to_builders ab) subs r1 = Inr r2" "counts_ok r2"
        "\<And>n. count_of r2 n = count_of r1 n +
              int (length (filter (\<lambda>s. case map_of (topic_name_suffixes_to_builders ab) s of
                                None \<Rightarrow> False
                              | Some tb \<Rightarrow> n \<in> set (subscriber_node_names flt tb)) subs))"
    by blast
  show ?thesis
    using r1 r2 by (simp add: count_action_node_appearances_def spec_appearance_count_def count_of_Nil)
qed

lemma count_action_node_appearances_missing:
  assumes "\<not> (set pubs \<subseteq> set (dict_keys (topic_name_suffixes_to_builders ab)) \<and>
              set subs \<subseteq> set (dict_keys (topic_name_suffixes_to_builders ab)))"
  shows "count_action_node_appearances flt ab pubs subs c = Inl KeyError"
proof (cases "set pubs \<subseteq> set (dict_keys (topic_name_suffixes_to_builders ab))")
  case False
  then show ?thesis
    by (simp add: count_action_node_appearances_def count_published_missing)
next
  case True
  with assms have "\<not> set subs \<subseteq> set (dict_keys (topic_name_suffixes_to_builders ab))" by simp
  then show ?thesis
    by (auto simp: count_action_node_appearances_def count_subscribed_missing
        split: sum.splits dest: count_published_error)
qed

lemma spec_appearance_count_le:
  "spec_appearance_count flt builders pubs subs n \<le> int (length pubs) + int (length subs)"
  unfolding spec_appearance_count_def
  by (intro add_mono) (simp_all)

lemma counts_ok_membership:
  assumes "counts_ok r"
  shows "(map_of r n = Some c) \<longleftrightarrow> (count_of r n = c \<and> 0 < c)"
    and "(\<exists>c. map_of r n = Some c \<and> c \<noteq> k) \<longleftrightarrow> (0 < count_of r n \<and> count_of r n \<noteq> k)"
  using counts_ok_lookup [OF assms, of n]
  by (auto simp: count_of_def split: option.splits)

subsection \<open>Action clients and servers\<close>

text \<open>
  C9. Gathering the client and server names of an action returns without an exception
  exactly when the action holds a topic builder for every one of the five suffixes
  (\<open>/goal\<close>, \<open>/cancel\<close>, \<open>/feedback\<close>, \<open>/result\<close>, \<open>/status\<close>).  When one is
  missing, the unguarded lookup of the role-counting step raises \<open>KeyError\<close>, and
  \<open>prepare\<close> passes it on; that holds in particular for a cluster that validation
  accepted with only three or four of the suffixes.
\<close>

theorem gather_needs_all_five_suffixes:
  "(has_all_suffixes ab \<longrightarrow>
      (\<exists>r. gather_action_client_and_server_names node_filter ab = Inr r)
      \<and> (\<exists>r. ActionBuilder_prepare node_filter ab = Inr r))
   \<and> (\<not> has_all_suffixes ab \<longrightarrow>
        gather_action_client_and_server_names node_filter ab = Inl KeyError
        \<and> ActionBuilder_prepare node_filter ab = Inl KeyError)
   \<and> (validate_action_topic_builders ab = Inr True \<and> \<not> has_all_suffixes ab \<longrightarrow>
        ActionBuilder_prepare node_filter ab = Inl KeyError)"
proof -
  let ?C = CLIENT_PUBLISHED_TOPIC_SUFFIXES and ?S = SERVER_PUBLISHED_TOPIC_SUFFIXES
  let ?K = "set (dict_keys (topic_name_suffixes_to_builders ab))"
  have present: "\<exists>r. gather_action_client_and_server_names node_filter ab = Inr r"
    if "has_all_suffixes ab"
  proof -
    from that have c: "set ?C \<subseteq> ?K" and s: "set ?S \<subseteq> ?K"
      by (simp_all add: has_all_suffixes_iff)
    from count_action_node_appearances_present [OF c s, of node_filter] obtain r1 where
      r1: "count_action_node_appearances node_filter ab ?C ?S [] = Inr r1" by blast
    from count_action_node_appearances_present [OF s c, of node_filter] obtain r2 where
      r2: "count_action_node_appearances node_filter ab ?S ?C [] = Inr r2" by blast
    show ?thesis
      using r1 r2 by (simp add: gather_action_client_and_server_names_def split: prod.splits)
  qed
  have missing: "gather_action_client_and_server_names node_filter ab = Inl KeyError"
    if "\<not> has_all_suffixes ab"
  proof -
    from that have m: "\<not> (set ?C \<subseteq> ?K \<and> set ?S \<subseteq> ?K)"
      by (simp add: has_all_suffixes_iff)
    then have m': "\<not> (set ?S \<subseteq> ?K \<and> set ?C \<subseteq> ?K)" by blast
    show ?thesis
      using count_action_node_appearances_missing [OF m, of node_filter "[]"]
        count_action_node_appearances_missing [OF m', of node_filter "[]"]
      by (simp add: gather_action_client_and_server_names_def)
  qed
  show ?thesis
    using present missing
    by (auto simp: ActionBuilder_prepare_def split: prod.splits)
qed

text \<open>
  The three core topics alone pass validation, lack two suffixes, and make \<open>prepare\<close>
  raise; the full cluster is prepared normally.
\<close>

theorem gather_needs_all_five_suffixes_witness:
  "validate_action_topic_builders core_only_action_builder = Inr True
   \<and> \<not> has_all_suffixes core_only_action_builder
   \<and> ActionBuilder_prepare (NodeFilter False False) core_only_action_builder = Inl KeyError
   \<and> has_all_suffixes role_action_builder
   \<and> (\<exists>r. ActionBuilder_prepare (NodeFilter False False) role_action_builder = Inr r)"
proof -
  have v: "validate_action_topic_builders core_only_action_builder = Inr True"
    by code_simp
  have n: "\<not> has_all_suffixes core_only_action_builder"
    by code_simp
  have h: "has_all_suffixes role_action_builder"
    by code_simp
  show ?thesis
    using v n h
      gather_needs_all_five_suffixes [of core_only_action_builder "NodeFilter False False"]
      gather_needs_all_five_suffixes [of role_action_builder "NodeFilter False False"]
    by simp
qed

text \<open>
  On an action that holds its five suffix topics the count decides.  For every node name:
  the node is recorded as a client exactly when its appearance count over the five topics,
  in the client direction, is 5, and as a server exactly when its count in the server
  direction is 5; the nodes logged as rejected are exactly those with a count above 0 and
  below 5 in one of the two directions, and none of them is added.
\<close>

lemma action_roles_need_count_five:
  assumes "has_all_suffixes ab"
  shows "\<exists>clients servers lg.
     gather_action_client_and_server_names node_filter ab = Inr ((clients, servers), lg)
   \<and> (\<forall>n. n \<in> set clients \<longleftrightarrow> client_appearance_count node_filter ab n = 5)
   \<and> (\<forall>n. n \<in> set servers \<longleftrightarrow> server_appearance_count node_filter ab n = 5)
   \<and> (\<forall>n. invalid_node_message n \<in> set lg \<longleftrightarrow>
          (0 < client_appearance_count node_filter ab n
             \<and> client_appearance_count node_filter ab n < 5)
          \<or> (0 < server_appearance_count node_filter ab n
             \<and> server_appearance_count node_filter ab n < 5))"
proof -
  let ?C = CLIENT_PUBLISHED_TOPIC_SUFFIXES and ?S = SERVER_PUBLISHED_TOPIC_SUFFIXES
  let ?K = "set (dict_keys (topic_name_suffixes_to_builders ab))"
  from assms have c: "set ?C \<subseteq> ?K" and s: "set ?S \<subseteq> ?K"
    by (simp_all add: has_all_suffixes_iff)
  from count_action_node_appearances_present [OF c s, of node_filter] obtain r1 where
    r1: "count_action_node_appearances node_filter ab ?C ?S [] = Inr r1" "counts_ok r1"
        "\<And>n. count_of r1 n = client_appearance_count node_filter ab n"
    by (auto simp: client_appearance_count_def)
  from count_action_node_appearances_present [OF s c, of node_filter] obtain r2 where
    r2: "count_action_node_appearances node_filter ab ?S ?C [] = Inr r2" "counts_ok r2"
        "\<And>n. count_of r2 n = server_appearance_count node_filter ab n"
    by (auto simp: server_appearance_count_def)
  obtain V1 L1 where g1: "gather_valid_action_node_names_based_on_appearance_counts r1 = (V1, L1)"
    by (cases "gather_valid_action_node_names_based_on_appearance_counts r1")
  obtain V2 L2 where g2: "gather_valid_action_node_names_based_on_appearance_counts r2 = (V2, L2)"
    by (cases "gather_valid_action_node_names_based_on_appearance_counts r2")
  have d1: "distinct (map fst r1)" and d2: "distinct (map fst r2)"
    using r1(2) r2(2) by (simp_all add: counts_ok_def)
  have cle: "client_appearance_count node_filter ab n \<le> 5" for n
    using spec_appearance_count_le [of node_filter "topic_name_suffixes_to_builders ab" ?C ?S n]
    by (simp add: client_appearance_count_def CLIENT_PUBLISHED_TOPIC_SUFFIXES_def
        SERVER_PUBLISHED_TOPIC_SUFFIXES_def)
  have sle: "server_appearance_count node_filter ab n \<le> 5" for n
    using spec_appearance_count_le [of node_filter "topic_name_suffixes_to_builders ab" ?S ?C n]
    by (simp add: server_appearance_count_def CLIENT_PUBLISHED_TOPIC_SUFFIXES_def
        SERVER_PUBLISHED_TOPIC_SUFFIXES_def)
  have V1: "n \<in> set V1 \<longleftrightarrow> client_appearance_count node_filter ab n = 5" for n
    using gather_valid_sets [OF d1] g1 counts_ok_membership(1) [OF r1(2), of n 5] r1(3) [of n]
    by (auto simp: NUM_TOPIC_SUFFIXES_eq)
  have V2: "n \<in> set V2 \<longleftrightarrow> server_appearance_count node_filter ab n = 5" for n
    using gather_valid_sets [OF d2] g2 counts_ok_membership(1) [OF r2(2), of n 5] r2(3) [of n]
    by (auto simp: NUM_TOPIC_SUFFIXES_eq)
  have L1: "invalid_node_message n \<in> set L1 \<longleftrightarrow>
              (0 < client_appearance_count node_filter ab n
                 \<and> client_appearance_count node_filter ab n < 5)" for n
  proof -
    have "invalid_node_message n \<in> set L1 \<longleftrightarrow> (\<exists>c. map_of r1 n = Some c \<and> c \<noteq> 5)"
      using gather_valid_sets [OF d1] g1
      by (auto simp: NUM_TOPIC_SUFFIXES_eq invalid_node_message_inj image_iff)
    then show ?thesis
      using counts_ok_membership(2) [OF r1(2), of n 5] r1(3) [of n] cle [of n] by auto
  qed
  have L2: "invalid_node_message n \<in> set L2 \<longleftrightarrow>
              (0 < server_appearance_count node_filter ab n
                 \<and> server_appearance_count node_filter ab n < 5)" for n
  proof -
    have "invalid_node_message n \<in> set L2 \<longleftrightarrow> (\<exists>c. map_of r2 n = Some c \<and> c \<noteq> 5)"
      using gather_valid_sets [OF d2] g2
      by (auto simp: NUM_TOPIC_SUFFIXES_eq invalid_node_message_inj image_iff)
    then show ?thesis
      using counts_ok_membership(2) [OF r2(2), of n 5] r2(3) [of n] sle [of n] by auto
  qed
  have "gather_action_client_and_server_names node_filter ab = Inr ((V1, V2), L1 @ L2)"
    using r1(1) r2(1) g1 g2 by (simp add: gather_action_client_and_server_names_def)
  then show ?thesis
    using V1 V2 L1 L2 by auto
qed

text \<open>
  A client on all five topics, a server on all five, and a node that only publishes the
  goal: the first two are recorded, the third is rejected and logged.
\<close>

lemma action_roles_on_full_cluster:
  "has_all_suffixes role_action_builder
   \<and> (\<exists>clients servers lg.
        gather_action_client_and_server_names (NodeFilter False False) role_action_builder
          = Inr ((clients, servers), lg)
        \<and> ''/client'' \<in> set clients \<and> ''/partial'' \<notin> set clients \<and> ''/server'' \<notin> set clients
        \<and> ''/server'' \<in> set servers \<and> ''/client'' \<notin> set servers
        \<and> invalid_node_message ''/partial'' \<in> set lg
        \<and> invalid_node_message ''/client'' \<notin> set lg)"
proof -
  let ?f = "NodeFilter False False"
  have h: "has_all_suffixes role_action_builder"
    by code_simp
  have c: "client_appearance_count ?f role_action_builder ''/client'' = 5"
          "client_appearance_count ?f role_action_builder ''/partial'' = 1"
          "client_appearance_count ?f role_action_builder ''/server'' = 0"
          "server_appearance_count ?f role_action_builder ''/server'' = 5"
          "server_appearance_count ?f role_action_builder ''/client'' = 0"
          "server_appearance_count ?f role_action_builder ''/partial'' = 0"
    by code_simp+
  from action_roles_need_count_five [OF h, of ?f] obtain clients servers lg where
    g: "gather_action_client_and_server_names ?f role_action_builder = Inr ((clients, servers), lg)"
       "\<And>n. n \<in> set clients \<longleftrightarrow> client_appearance_count ?f role_action_builder n = 5"
       "\<And>n. n \<in> set servers \<longleftrightarrow> server_appearance_count ?f role_action_builder n = 5"
       "\<And>n. invalid_node_message n \<in> set lg \<longleftrightarrow>
          (0 < client_appearance_count ?f role_action_builder n
             \<and> client_appearance_count ?f role_action_builder n < 5)
          \<or> (0 < server_appearance_count ?f role_action_builder n
             \<and> server_appearance_count ?f role_action_builder n < 5)"
    by blast
  show ?thesis
    using h g c by simp
qed

text \<open>
  C6. A promoted action need not hold five topics: validation asks for three suffixes.
  The registry \<open>four_topic_bank\<close> is promoted to the action \<open>/r/move\<close>, and its topics are
  removed from the registry.  The node \<open>/client\<close> appears on four of the topics in the
  client direction, a count above 0 and below 5, so the claim has it rejected and logged.
  The code judges no node: \<open>prepare\<close> raises \<open>KeyError\<close> at the lookup of \<open>/status\<close>,
  before any count is compared and before anything is logged.
\<close>

theorem partial_action_roles_scenario:
  "(case extract_action_builders_from_internal_topic_builders four_topic_bank of
      Inl e \<Rightarrow> False
    | Inr (names_to_action_builders, bank', lg) \<Rightarrow>
        map (\<lambda>(action_name, ab).
               (action_name, validate_action_topic_builders ab,
                client_appearance_count (NodeFilter False False) ab ''/client'',
                server_appearance_count (NodeFilter False False) ab ''/server'',
                gather_action_client_and_server_names (NodeFilter False False) ab,
                ActionBuilder_prepare (NodeFilter False False) ab))
            names_to_action_builders
          = [(''/r/move'', Inr True, 4, 4, Inl KeyError, Inl KeyError)]
        \<and> names_to_entity_builders bank' = [])"
  by code_simp

subsection \<open>Nodelet managers\<close>

lemma dict_keys_update:
  "set (dict_keys (AList.update k v d)) = insert k (set (dict_keys d))"
  by (simp add: dict_keys_def dom_update)

lemma set_map_filter:
  "set (List.map_filter f xs) = {y. \<exists>x\<in>set xs. f x = Some y}"
  by (induction xs) (auto split: option.splits)

lemma populated_topic_keys:
  "populated tf sf nb \<Longrightarrow>
   set (dict_keys (all_topic_names nb))
     = set (dict_keys (topic_names_published nb)) \<union> set (dict_keys (topic_names_subscribed nb))
   \<and> set (dict_keys (all_topic_names nb)) \<subseteq> set (dict_keys (topic_names_to_types nb))"
proof (induction rule: populated.induct)
  case (fresh n)
  show ?case by (simp add: NodeBuilder_init_def dict_keys_def)
next
  case (topic nb topic_name st topic_type remap)
  then show ?case
    by (cases st) (auto simp: add_topic_name_def Let_def dict_keys_update)
next
  case (service nb service_name service_type)
  then show ?case by (auto simp: add_service_name_and_type_def)
qed

lemma gather_nodelet_manager_loop_present:
  "set ks \<subseteq> set (dict_keys (topic_names_to_types nb)) \<Longrightarrow>
   gather_nodelet_manager_loop ks nb =
     Inr ((\<exists>t\<in>set ks. map_of (topic_names_to_types nb) t = Some ''bond/Status'') \<and>
          ''nodelet/NodeletList'' \<in> set (service_types nb) \<and>
          ''nodelet/NodeletLoad'' \<in> set (service_types nb) \<and>
          ''nodelet/NodeletUnload'' \<in> set (service_types nb))"
proof (induction ks)
  case Nil
  show ?case by simp
next
  case (Cons k ks)
  from Cons.prems obtain ty where ty: "map_of (topic_names_to_types nb) k = Some ty"
    by (auto simp: in_dict_keys)
  show ?case
    using Cons ty by (auto simp: dict_getitem_def)
qed

lemma set_service_types:
  "set (service_types nb) = ran (map_of (service_names_to_types nb))"
proof -
  have "v \<in> set (service_types nb) \<longleftrightarrow> v \<in> ran (map_of (service_names_to_types nb))" for v
  proof
    assume "v \<in> set (service_types nb)"
    then show "v \<in> ran (map_of (service_names_to_types nb))"
      by (auto simp: service_types_def set_map_filter ran_def)
  next
    assume "v \<in> ran (map_of (service_names_to_types nb))"
    then obtain k where k: "map_of (service_names_to_types nb) k = Some v"
      by (auto simp: ran_def)
    then have "k \<in> set (service_names nb)"
      by (auto simp: service_names_def in_dict_keys)
    with k show "v \<in> set (service_types nb)"
      by (auto simp: service_types_def set_map_filter)
  qed
  then show ?thesis by blast
qed

lemma gather_nodelet_loop_present:
  "set ks \<subseteq> set (dict_keys (topic_names_to_types nb)) \<Longrightarrow>
   gather_nodelet_loop ks nb =
     Inr ((\<exists>t\<in>set ks. map_of (topic_names_to_types nb) t = Some ''bond/Status'') \<and>
          \<not> is_nodelet_manager nb)"
proof (induction ks)
  case Nil
  show ?case by simp
next
  case (Cons k ks)
  from Cons.prems obtain ty where ty: "map_of (topic_names_to_types nb) k = Some ty"
    by (auto simp: in_dict_keys)
  show ?case
    using Cons ty by (auto simp: dict_getitem_def)
qed

text \<open>
  C5, as amended. For every node builder that fact collection can produce, the node is
  classified a nodelet manager if and only if some topic it publishes or subscribes to
  has the type \<open>bond/Status\<close> and the types of its services include all three of
  \<open>nodelet/NodeletList\<close>, \<open>nodelet/NodeletLoad\<close> and \<open>nodelet/NodeletUnload\<close>; the
  lookups of the classification never fail, and a node with such a topic that is not a
  manager is classified a nodelet.
\<close>

theorem nodelet_manager_iff:
  assumes "populated topic_filter service_filter nb"
  defines "bond \<equiv> (\<exists>t \<in> set (dict_keys (topic_names_published nb))
                        \<union> set (dict_keys (topic_names_subscribed nb)).
                    map_of (topic_names_to_types nb) t = Some ''bond/Status'')"
    and "triad \<equiv> {''nodelet/NodeletList'', ''nodelet/NodeletLoad'', ''nodelet/NodeletUnload''}
                    \<subseteq> ran (map_of (service_names_to_types nb))"
  shows "gather_nodelet_manager_status nb = Inr (bond \<and> triad)
     \<and> prepare_classification nb =
         Inr (nb\<lparr>is_nodelet_manager := (bond \<and> triad), is_nodelet := (bond \<and> \<not> triad)\<rparr>)"
proof -
  from populated_topic_keys [OF assms(1)] have
    eq: "set (dict_keys (all_topic_names nb))
           = set (dict_keys (topic_names_published nb)) \<union> set (dict_keys (topic_names_subscribed nb))"
    and sub: "set (dict_keys (all_topic_names nb)) \<subseteq> set (dict_keys (topic_names_to_types nb))"
    by blast+
  have m: "gather_nodelet_manager_status nb = Inr (bond \<and> triad)"
    unfolding gather_nodelet_manager_status_def bond_def triad_def
    by (simp only: gather_nodelet_manager_loop_present [OF sub] eq set_service_types) simp
  let ?nb1 = "nb\<lparr>is_nodelet_manager := (bond \<and> triad)\<rparr>"
  have sub1: "set (dict_keys (all_topic_names ?nb1)) \<subseteq> set (dict_keys (topic_names_to_types ?nb1))"
    using sub by simp
  have n: "gather_nodelet_status ?nb1 = Inr (bond \<and> \<not> triad)"
    unfolding gather_nodelet_status_def
    using eq by (simp only: gather_nodelet_loop_present [OF sub1]) (auto simp: bond_def)
  show ?thesis
    using m n by (simp add: prepare_classification_def)
qed

text \<open>
  The scenario of the specification: \<open>N\<close> publishes a \<open>bond/Status\<close> topic and provides
  the three services, \<open>M\<close> publishes the same topic and provides none.
\<close>

theorem nodelet_manager_iff_witness:
  "gather_nodelet_manager_status scenario_manager_N = Inr True
   \<and> prepare_classification scenario_manager_N
       = Inr (scenario_manager_N\<lparr>is_nodelet_manager := True, is_nodelet := False\<rparr>)
   \<and> gather_nodelet_manager_status scenario_node_M = Inr False
   \<and> prepare_classification scenario_node_M
       = Inr (scenario_node_M\<lparr>is_nodelet_manager := False, is_nodelet := True\<rparr>)"
proof -
  let ?tf = "TopicFilter False False" and ?sf = "ServiceTypeFilter False False"
  have pN: "populated ?tf ?sf scenario_manager_N"
    unfolding scenario_manager_N_def with_services_def nodelet_services_def
    by simp (intro populated.intros)
  have pM: "populated ?tf ?sf scenario_node_M"
    unfolding scenario_node_M_def by (intro populated.intros)
  have sN: "service_names_to_types scenario_manager_N = nodelet_services"
    and sM: "service_names_to_types scenario_node_M = []"
    by (simp_all add: scenario_manager_N_def scenario_node_M_def
        with_services_def nodelet_services_def
        add_topic_name_def add_service_name_and_type_def should_filter_out_def
        TopicFilter_def ServiceTypeFilter_def NodeBuilder_init_def Let_def)
  have r: "ran (map_of nodelet_services)
             = {''nodelet/NodeletList'', ''nodelet/NodeletLoad'', ''nodelet/NodeletUnload''}"
    by (subst ran_distinct) (auto simp: nodelet_services_def)
  have tN: "dict_keys (topic_names_published scenario_manager_N) = [''/N/bond'']"
           "map_of (topic_names_to_types scenario_manager_N) ''/N/bond'' = Some ''bond/Status''"
    and tM: "dict_keys (topic_names_published scenario_node_M) = [''/N/bond'']"
           "map_of (topic_names_to_types scenario_node_M) ''/N/bond'' = Some ''bond/Status''"
    by (simp_all add: scenario_manager_N_def scenario_node_M_def
        with_services_def nodelet_services_def dict_keys_def
        add_topic_name_def add_service_name_and_type_def should_filter_out_def
        TopicFilter_def ServiceTypeFilter_def NodeBuilder_init_def Let_def)
  show ?thesis
    using nodelet_manager_iff [OF pN] nodelet_manager_iff [OF pM]
    by (simp add: sN sM r tN tM)
qed

text \<open>
  C5, counterexample. A node that only subscribes to a \<open>bond/Status\<close> topic and provides
  the three services is classified a nodelet manager although it publishes no topic.
\<close>

theorem nodelet_manager_counterexample:
  "gather_nodelet_manager_status subscribing_manager = Inr True
   \<and> map_sum id is_nodelet_manager (prepare_classification subscribing_manager) = Inr True
   \<and> topic_names_published subscribing_manager = []"
  by code_simp

subsection \<open>Token matching\<close>

lemma find_sorted_least:
  "sorted xs \<Longrightarrow> find P xs = Some x \<Longrightarrow> x \<in> set xs \<and> P x \<and> (\<forall>y\<in>set xs. P y \<longrightarrow> x \<le> y)"
  by (induction xs) (auto split: if_splits)

lemma find_None_iff': "find P xs = None \<longleftrightarrow> (\<forall>x\<in>set xs. \<not> P x)"
  by (induction xs) auto

lemma find_sort_Min:
  fixes xs :: "'a::linorder list"
  shows "find P (sort xs) = (if {x \<in> set xs. P x} = {} then None else Some (Min {x \<in> set xs. P x}))"
proof (cases "find P (sort xs)")
  case None
  then show ?thesis by (auto simp: find_None_iff')
next
  case (Some x)
  from find_sorted_least [OF _ Some] have
    x: "x \<in> set xs" "P x" "\<And>y. y \<in> set xs \<Longrightarrow> P y \<Longrightarrow> x \<le> y"
    by auto
  have "Min {x \<in> set xs. P x} = x"
    by (rule Min_eqI) (use x in auto)
  then show ?thesis using Some x by auto
qed


lemma find_match_Min:
  "find_match spec_types io_type candidates =
     (if {k \<in> set candidates. map_of spec_types k = Some io_type} = {} then None
      else Some (Min {k \<in> set candidates. map_of spec_types k = Some io_type}))"
  unfolding find_match_def by (rule find_sort_Min)

text \<open>
  C7, as amended. A deployed name is still unset and has no exact match (its final
  segment is not an unconsumed catalog key of the item's type).  Then the matcher first
  looks among the unconsumed catalog keys that contain the final segment as a substring
  and have the item's type: if there is one, the least of them in sorted order is
  assigned and consumed.  Otherwise the least unconsumed key of the item's type is
  assigned and consumed.  Otherwise the name stays unset, nothing is consumed, the result
  is marked invalid and a warning is logged.
\<close>

theorem substring_match_preferred:
  assumes unset: "map_of io_names io_name = Some None"
    and noexact: "last_token io_name \<notin> set available
                   \<or> map_of spec_types (last_token io_name) \<noteq> Some (io_type_of io_name)"
  defines "P \<equiv> {k \<in> set available. sublist (last_token io_name) k
                                   \<and> map_of spec_types k = Some (io_type_of io_name)}"
    and "R \<equiv> {k \<in> set available. map_of spec_types k = Some (io_type_of io_name)}"
  shows "match_step node_name io_type_of spec_types (io_names, available, valid, lg) io_name =
     (if P \<noteq> {}
      then (AList.update io_name (Some (Min P)) io_names, removeAll (Min P) available, valid, lg)
      else if R \<noteq> {}
      then (AList.update io_name (Some (Min R)) io_names, removeAll (Min R) available, valid, lg)
      else (io_names, available, False, lg @ [unmatched_message node_name io_name]))"
proof -
  let ?ty = "io_type_of io_name" and ?tok = "last_token io_name"
  let ?pot = "filter (\<lambda>ss. sublist ?tok ss) available"
  let ?rem = "filter (\<lambda>ss. ss \<notin> set ?pot) available"
  have pot: "{k \<in> set ?pot. map_of spec_types k = Some ?ty} = P"
    by (auto simp: P_def)
  have rem: "{k \<in> set ?rem. map_of spec_types k = Some ?ty} = R" if "P = {}"
    using that by (auto simp: P_def R_def)
  show ?thesis
  proof (cases "P = {}")
    case False
    then have f: "find_match spec_types ?ty ?pot = Some (Min P)"
      by (simp only: find_match_Min pot) simp
    show ?thesis
      using False noexact f
      by (simp add: match_step_def Let_def update_conv')
  next
    case True
    then have f1: "find_match spec_types ?ty ?pot = None"
      by (simp only: find_match_Min pot) simp
    show ?thesis
    proof (cases "R = {}")
      case True
      then have f2: "find_match spec_types ?ty ?rem = None"
        using \<open>P = {}\<close> by (simp only: find_match_Min rem) simp
      show ?thesis
        using True \<open>P = {}\<close> noexact f1 f2 unset
        by (simp add: match_step_def Let_def)
    next
      case False
      then have f2: "find_match spec_types ?ty ?rem = Some (Min R)"
        using \<open>P = {}\<close> by (simp only: find_match_Min rem) simp
      show ?thesis
        using False \<open>P = {}\<close> noexact f1 f2 unset
        by (simp add: match_step_def Let_def update_conv')
    qed
  qed
qed

lemma Collect_set_filter: "{k \<in> set xs. Q k} = set (filter Q xs)"
  by auto

text \<open>
  A key that contains the final segment wins over one that sorts before it; without such
  a key the least same-typed key is taken; without a same-typed key the name is unmatched.
\<close>

theorem substring_match_preferred_witness:
  "match_step ''/camera'' (\<lambda>n. ''int'') [(''aaa'', ''int''), (''exposure_time'', ''int'')]
     ([(''cam/exposure'', None)], [''aaa'', ''exposure_time''], True, []) ''cam/exposure''
     = ([(''cam/exposure'', Some ''exposure_time'')], [''aaa''], True, [])
   \<and> match_step ''/camera'' (\<lambda>n. ''int'') [(''exposure'', ''int''), (''gain'', ''int'')]
     ([(''cam/brightness'', None)], [''gain'', ''exposure''], True, []) ''cam/brightness''
     = ([(''cam/brightness'', Some ''exposure'')], [''gain''], True, [])
   \<and> match_step ''/camera'' (\<lambda>n. ''str'') [(''exposure'', ''int''), (''gain'', ''int'')]
     ([(''cam/brightness'', None)], [''gain'', ''exposure''], True, []) ''cam/brightness''
     = ([(''cam/brightness'', None)], [''gain'', ''exposure''], False,
        [unmatched_message ''/camera'' ''cam/brightness''])"
proof -
  have t: "last_token ''cam/exposure'' = ''exposure''" "last_token ''cam/brightness'' = ''brightness''"
    by (simp_all add: last_token_def)
  have s: "sublist ''exposure'' ''exposure_time''" "\<not> sublist ''exposure'' ''aaa''"
      "\<not> sublist ''brightness'' ''gain''" "\<not> sublist ''brightness'' ''exposure''"
    by code_simp+
  have P1: "{k \<in> set [''aaa'', ''exposure_time'']. sublist (last_token ''cam/exposure'') k
              \<and> map_of [(''aaa'', ''int''), (''exposure_time'', ''int'')] k = Some ''int''}
            = {''exposure_time''}"
    using s by (auto simp: t)
  have P2: "{k \<in> set [''gain'', ''exposure'']. sublist (last_token ''cam/brightness'') k
              \<and> map_of [(''exposure'', ''int''), (''gain'', ''int'')] k = Some ty} = {}" for ty
    using s by (auto simp: t)
  have R2: "{k \<in> set [''gain'', ''exposure''].
               map_of [(''exposure'', ''int''), (''gain'', ''int'')] k = Some ''int''}
            = {''exposure'', ''gain''}"
    by auto
  have R3: "{k \<in> set [''gain'', ''exposure''].
               map_of [(''exposure'', ''int''), (''gain'', ''int'')] k = Some ''str''} = {}"
    by auto
  have m: "Min {''exposure'', ''gain''} = ''exposure''"
    by simp
  have a: "match_step ''/camera'' (\<lambda>n. ''int'') [(''aaa'', ''int''), (''exposure_time'', ''int'')]
     ([(''cam/exposure'', None)], [''aaa'', ''exposure_time''], True, []) ''cam/exposure''
     = ([(''cam/exposure'', Some ''exposure_time'')], [''aaa''], True, [])"
    using substring_match_preferred [of "[(''cam/exposure'', None)]" "''cam/exposure''"
        "[''aaa'', ''exposure_time'']" "[(''aaa'', ''int''), (''exposure_time'', ''int'')]"
        "\<lambda>n. ''int''" "''/camera''" True "[]"]
    unfolding P1 by (simp add: t)
  have b: "match_step ''/camera'' (\<lambda>n. ''int'') [(''exposure'', ''int''), (''gain'', ''int'')]
     ([(''cam/brightness'', None)], [''gain'', ''exposure''], True, []) ''cam/brightness''
     = ([(''cam/brightness'', Some ''exposure'')], [''gain''], True, [])"
    using substring_match_preferred [of "[(''cam/brightness'', None)]" "''cam/brightness''"
        "[''gain'', ''exposure'']" "[(''exposure'', ''int''), (''gain'', ''int'')]"
        "\<lambda>n. ''int''" "''/camera''" True "[]"]
    unfolding P2 R2 m by (simp add: t)
  have c: "match_step ''/camera'' (\<lambda>n. ''str'') [(''exposure'', ''int''), (''gain'', ''int'')]
     ([(''cam/brightness'', None)], [''gain'', ''exposure''], True, []) ''cam/brightness''
     = ([(''cam/brightness'', None)], [''gain'', ''exposure''], False,
        [unmatched_message ''/camera'' ''cam/brightness''])"
    using substring_match_preferred [of "[(''cam/brightness'', None)]" "''cam/brightness''"
        "[''gain'', ''exposure'']" "[(''exposure'', ''int''), (''gain'', ''int'')]"
        "\<lambda>n. ''str''" "''/camera''" True "[]"]
    unfolding P2 R3 by (simp add: t)
  from a b c show ?thesis by simp
qed

text \<open>
  C7, counterexample. The catalog key \<open>exp\<close> is a substring of the final segment
  \<open>exposure\<close> and has the item's type, yet the matcher assigns \<open>aaa\<close>, the first
  same-typed key in sorted order: a catalog key that is a substring of the deployed
  segment is not preferred.
\<close>

theorem substring_direction_counterexample:
  "sublist ''exp'' (last_token ''cam/exposure'')
   \<and> match_token_types ''/camera'' [(''cam/exposure'', None)] (\<lambda>n. ''int'')
        (Some [(''aaa'', ''int''), (''exp'', ''int'')])
      = (Some True, [(''cam/exposure'', Some ''aaa'')], [])"
  by code_simp

subsection \<open>Dynamic attribute update\<close>

lemma getattribute_setattr:
  "getattribute (setattr e key v) k = (if k = key then Some v else getattribute e k)"
  by (auto simp: getattribute_def setattr_def update_conv' split: option.splits)

text \<open>
  C10, as amended. For every entity and every key whose current value is a \<open>str\<close>, an
  update of that key alone with a \<open>str\<close> returns without an exception and logs nothing,
  and leaves the class and every other attribute as they were.  For a key other than
  \<open>version\<close>, a different string turns the field into the two-element list of the old
  string followed by the new one, and an equal string leaves the entity unchanged.  For
  the key \<open>version\<close> the field becomes the string made of the old one, \<open>_\<close> and the new
  one, whether the two are equal or not.
\<close>

theorem string_attribute_becomes_list:
  assumes "getattribute e key = Some (PStr old)"
  shows "\<exists>e'. update_attributes B e [(key, PStr new)] = (None, e', [])
           \<and> getattribute e' key =
               Some (if key = ''version'' then PStr (old @ ''_'' @ new)
                     else if new = old then PStr old
                     else PList [PStr old, PStr new])
           \<and> (key \<noteq> ''version'' \<and> new = old \<longrightarrow> e' = e)
           \<and> (\<forall>k. k \<noteq> key \<longrightarrow> getattribute e' k = getattribute e k)
           \<and> class_name e' = class_name e
           \<and> class_attributes e' = class_attributes e"
proof -
  have c: "class_name (setattr e key v) = class_name e
           \<and> class_attributes (setattr e key v) = class_attributes e" for v
    by (simp add: setattr_def)
  show ?thesis
  proof (cases "key = ''version''")
    case True
    have "update_attributes B e [(key, PStr new)]
            = (None, setattr e key (PStr (old @ ''_'' @ new)), [])"
      using assms True
      by (simp add: update_attributes_def update_attribute_def as_int_def py_str_def)
    then show ?thesis
      using True c by (simp add: getattribute_setattr)
  next
    case False
    show ?thesis
    proof (cases "new = old")
      case True
      have "update_attributes B e [(key, PStr new)] = (None, e, [])"
        using assms False True
        by (simp add: update_attributes_def update_attribute_def)
      then show ?thesis
        using assms False True by simp
    next
      case differs: False
      have "update_attributes B e [(key, PStr new)]
              = (None, setattr e key (PList [PStr old, PStr new]), [])"
        using assms False differs
        by (simp add: update_attributes_def update_attribute_def py_in_def Let_def)
      then show ?thesis
        using False differs c by (simp add: getattribute_setattr)
    qed
  qed
qed

text \<open>
  On a topic entity: the same construct type changes nothing, a second source makes the
  source a list, and a second version string is joined to the first.
\<close>

theorem string_attribute_becomes_list_witness:
  "update_attributes trivial_builtins example_topic_entity
      [(''construct_type'', PStr ''sensor_msgs/LaserScan'')]
     = (None, example_topic_entity, [])
   \<and> (\<exists>e'. update_attributes trivial_builtins example_topic_entity [(''source'', PStr ''haros'')]
             = (None, e', [])
          \<and> getattribute e' ''source'' = Some (PList [PStr ''ros_snapshot'', PStr ''haros''])
          \<and> getattribute e' ''name'' = Some (PStr ''/scan''))
   \<and> (\<exists>e'. update_attributes trivial_builtins example_topic_entity [(''version'', PStr ''1.0'')]
             = (None, e', [])
          \<and> getattribute e' ''version'' = Some (PStr ''1.0_1.0''))"
proof -
  have g: "getattribute example_topic_entity ''construct_type'' = Some (PStr ''sensor_msgs/LaserScan'')"
          "getattribute example_topic_entity ''source'' = Some (PStr ''ros_snapshot'')"
          "getattribute example_topic_entity ''version'' = Some (PStr ''1.0'')"
          "getattribute example_topic_entity ''name'' = Some (PStr ''/scan'')"
    by (simp_all add: getattribute_def example_topic_entity_def)
  from string_attribute_becomes_list [OF g(1), of trivial_builtins "''sensor_msgs/LaserScan''"]
  have a: "update_attributes trivial_builtins example_topic_entity
             [(''construct_type'', PStr ''sensor_msgs/LaserScan'')]
           = (None, example_topic_entity, [])"
    by auto
  from string_attribute_becomes_list [OF g(2), of trivial_builtins "''haros''"]
  have b: "\<exists>e'. update_attributes trivial_builtins example_topic_entity [(''source'', PStr ''haros'')]
             = (None, e', [])
          \<and> getattribute e' ''source'' = Some (PList [PStr ''ros_snapshot'', PStr ''haros''])
          \<and> getattribute e' ''name'' = Some (PStr ''/scan'')"
    using g(4) by auto
  from string_attribute_becomes_list [OF g(3), of trivial_builtins "''1.0''"]
  have c: "\<exists>e'. update_attributes trivial_builtins example_topic_entity [(''version'', PStr ''1.0'')]
             = (None, e', [])
          \<and> getattribute e' ''version'' = Some (PStr ''1.0_1.0'')"
    by auto
  from a b c show ?thesis by blast
qed

text \<open>
  C10, counterexample. The key \<open>version\<close> holds the string \<open>1.0\<close>.  Updating it with the
  different string \<open>2.0\<close> gives the string \<open>1.0_2.0\<close>, not a list, and updating it with
  the equal string \<open>1.0\<close> changes the field to \<open>1.0_1.0\<close>.  And a string that is a
  \<open>unicode\<close>, as the \<open>yaml_tag\<close> that every entity reads from its class, is overwritten
  by a different string.
\<close>

theorem version_string_counterexample:
  "getattribute example_topic_entity ''version'' = Some (PStr ''1.0'')
   \<and> getattribute example_topic_entity ''yaml_tag'' = Some (PUnicode (map of_char ''!Topic''))
   \<and> (case update_attributes trivial_builtins example_topic_entity [(''yaml_tag'', PStr ''!Other'')] of
        (raised, e', lg) \<Rightarrow> (raised, getattribute e' ''yaml_tag'', lg))
      = (None, Some (PStr ''!Other''), [])
   \<and> (case update_attributes trivial_builtins example_topic_entity [(''version'', PStr ''2.0'')] of
        (raised, e', lg) \<Rightarrow> (raised, getattribute e' ''version''))
      = (None, Some (PStr ''1.0_2.0''))
   \<and> (case update_attributes trivial_builtins example_topic_entity [(''version'', PStr ''1.0'')] of
        (raised, e', lg) \<Rightarrow> (raised, getattribute e' ''version''))
      = (None, Some (PStr ''1.0_1.0''))"
  by code_simp

subsection \<open>Incomplete names\<close>

lemma py_split_length_ge2: "sep \<in> set s \<Longrightarrow> 2 \<le> length (py_split sep s)"
proof (induction s)
  case Nil
  then show ?case by simp
next
  case (Cons c s)
  obtain t ts where ts: "py_split sep s = t # ts"
    using py_split_not_Nil [of sep s] by (cases "py_split sep s") auto
  show ?case
  proof (cases "c = sep")
    case True
    then show ?thesis using ts by simp
  next
    case False
    with Cons.prems have "sep \<in> set s" by simp
    from Cons.IH [OF this] show ?thesis using False ts by simp
  qed
qed

lemma last_py_split_append:
  "sep \<notin> set xs \<Longrightarrow> sep \<in> set ys \<Longrightarrow>
   last (py_split sep (xs @ ys)) = last (py_split sep ys)"
proof (induction xs)
  case Nil
  then show ?case by simp
next
  case (Cons c xs)
  then have "sep \<in> set (xs @ ys)" by simp
  from py_split_length_ge2 [OF this] obtain t u us where
    ts: "py_split sep (xs @ ys) = t # u # us"
    by (cases "py_split sep (xs @ ys)"; cases "tl (py_split sep (xs @ ys))") auto
  show ?case using Cons ts by simp
qed

lemma py_join_snoc: "xs \<noteq> [] \<Longrightarrow> py_join sep (xs @ [l]) = py_join sep xs @ sep @ l"
proof (induction xs)
  case Nil
  then show ?case by simp
next
  case (Cons x xs)
  then show ?case by (cases xs) auto
qed

lemma py_split_ends_with_last:
  assumes "sep \<in> set s"
  shows "\<exists>q. s = q @ sep # last (py_split sep s)"
proof -
  let ?ts = "py_split sep s"
  have ne: "?ts \<noteq> []" by (rule py_split_not_Nil)
  have bl: "butlast ?ts \<noteq> []"
    using py_split_length_ge2 [OF assms] by (cases ?ts; cases "tl ?ts") auto
  have "s = py_join [sep] (butlast ?ts @ [last ?ts])"
    using ne by (simp add: py_join_py_split)
  also have "\<dots> = py_join [sep] (butlast ?ts) @ [sep] @ last ?ts"
    using bl by (rule py_join_snoc)
  finally show ?thesis by auto
qed

lemma is_whitespace_simps [simp]:
  "\<not> is_whitespace CHR ''/''" "\<not> is_whitespace CHR ''?''"
  by (simp_all add: is_whitespace_def)

lemma strip_question: "strip ''?'' = ''?''"
  by (simp add: strip_def)

lemma last_token_strip_question:
  assumes sl: "CHR ''/'' \<in> set n" and lt: "last_token n = ''?''"
  shows "last_token (strip n) = ''?''"
proof -
  let ?n' = "dropWhile is_whitespace n"
  have n: "n = takeWhile is_whitespace n @ ?n'" by simp
  have nosl: "CHR ''/'' \<notin> set (takeWhile is_whitespace n)"
    by (auto dest: set_takeWhileD)
  have sl': "CHR ''/'' \<in> set ?n'"
    using sl nosl n by (metis Un_iff set_append)
  have lt': "last (py_split CHR ''/'' ?n') = ''?''"
    using last_py_split_append [OF nosl sl'] lt n by (simp add: last_token_def)
  from py_split_ends_with_last [OF sl'] lt' obtain q where q: "?n' = q @ ''/?''"
    by auto
  have "dropWhile is_whitespace (rev ?n') = rev ?n'"
    by (simp only: q) simp
  then have "strip n = ?n'"
    by (simp add: strip_def)
  then show ?thesis using lt' by (simp add: last_token_def)
qed

lemma incomplete_when_last_token_question:
  assumes "last_token n = ''?''"
  shows "check_haros_name_is_complete T n ctx = (False, [incomplete_message T n ctx])"
proof (cases "CHR ''/'' \<in> set n")
  case True
  from last_token_strip_question [OF True assms] True show ?thesis
    by (simp add: check_haros_name_is_complete_def)
next
  case False
  then have "n = ''?''"
    using assms by (simp add: last_token_def py_split_no_sep)
  then show ?thesis
    by (simp add: check_haros_name_is_complete_def strip_question)
qed

text \<open>
  C8. For every remodeler and every specification entity whose (adjusted) name has \<open>?\<close>
  as its final path segment, the step of \<open>remodel\<close> for that entity returns normally,
  leaves every bank exactly as it was (nothing is merged, nothing is created) and adds one
  line to the log, the error-level report of the incomplete name; the run goes on with the
  next entity from the unchanged banks.
\<close>

theorem incomplete_names_are_skipped:
  assumes "last_token (adjust_haros_name R (instance_id R h)) = ''?''"
  shows "remodel_instance R (banks, lg) h =
           Inr (banks, lg @ [incomplete_message (cls_TYPE R)
                              (adjust_haros_name R (instance_id R h)) ''Check for Main Model''])
       \<and> remodel R (banks, lg) (h # rest) =
           remodel R (banks, lg @ [incomplete_message (cls_TYPE R)
                              (adjust_haros_name R (instance_id R h)) ''Check for Main Model''])
             rest"
  using incomplete_when_last_token_question [OF assms]
  by (simp add: remodel_instance_def)

text \<open>A specification topic named \<open>/robot/?\<close> leaves the topic bank as it was.\<close>

theorem incomplete_names_are_skipped_witness:
  "last_token (topic_id incomplete_haros_topic) = ''?''
   \<and> remodel TopicRemodeler (scenario_banks, []) [incomplete_haros_topic]
       = Inr (scenario_banks,
              [incomplete_message ''TOPIC'' ''/robot/?'' ''Check for Main Model''])"
proof -
  have l: "last_token (adjust_haros_name TopicRemodeler (instance_id TopicRemodeler incomplete_haros_topic)) = ''?''"
    by (simp add: TopicRemodeler_def incomplete_haros_topic_def last_token_def)
  show ?thesis
    using l incomplete_names_are_skipped [OF l, of scenario_banks "[]" "[]"]
    by (simp add: TopicRemodeler_def incomplete_haros_topic_def Topic_TYPE_def)
qed

subsection \<open>Topic merges\<close>

lemma merge_link_cases:
  "\<exists>lg1. merge_link role (names, upd, lg) x =
     (if fst (check_haros_name_is_complete Topic_TYPE x ''Check for Topic Nodes'')
         \<and> x \<notin> set names
      then (names @ [x], True, lg1) else (names, upd, lg1))"
  by (cases "check_haros_name_is_complete Topic_TYPE x ''Check for Topic Nodes''")
     (auto simp: merge_link_def)

lemma merge_link_foldl:
  "\<exists>names' lg'. foldl (merge_link role) (names, upd, lg) xs
                  = (names', upd \<or> new_links names xs, lg')
     \<and> (\<not> new_links names xs \<longrightarrow> names' = names)
     \<and> set names \<subseteq> set names'"
proof (induction xs arbitrary: names upd lg)
  case Nil
  show ?case by (simp add: new_links_def)
next
  case (Cons x xs)
  let ?c = "fst (check_haros_name_is_complete Topic_TYPE x ''Check for Topic Nodes'')"
  show ?case
  proof (cases "?c \<and> x \<notin> set names")
    case True
    obtain lg1 where s: "merge_link role (names, upd, lg) x = (names @ [x], True, lg1)"
      using True merge_link_cases [of role names upd lg x] by auto
    from Cons.IH [of "names @ [x]" True lg1] obtain names' lg' where
      r: "foldl (merge_link role) (names @ [x], True, lg1) xs = (names', True, lg')"
         "set (names @ [x]) \<subseteq> set names'"
      by auto
    show ?thesis
      using True s r by (auto simp: new_links_def)
  next
    case False
    obtain lg1 where s: "merge_link role (names, upd, lg) x = (names, upd, lg1)"
      using False merge_link_cases [of role names upd lg x] by auto
    have n: "new_links names (x # xs) = new_links names xs"
      using False by (auto simp: new_links_def)
    from Cons.IH [of names upd lg1] show ?thesis
      using s n by auto
  qed
qed


lemma merge_links_result:
  "\<exists>c' lg. merge_haros_topic_links_with_chris_topic_nodes h c
             = (c', new_links (model_publisher_node_names c) (topic_publishers h)
                    \<or> new_links (model_subscriber_node_names c) (topic_subscribers h), lg)
     \<and> model_construct_type c' = model_construct_type c
     \<and> version c' = version c \<and> source c' = source c \<and> model_name c' = model_name c
     \<and> (\<not> (new_links (model_publisher_node_names c) (topic_publishers h)
            \<or> new_links (model_subscriber_node_names c) (topic_subscribers h)) \<longrightarrow> c' = c)"
proof -
  from merge_link_foldl [of "''Publisher''" "model_publisher_node_names c" False "[]"
      "topic_publishers h"]
  obtain pubs lg1 where
    p: "foldl (merge_link ''Publisher'') (model_publisher_node_names c, False, [])
          (topic_publishers h)
        = (pubs, new_links (model_publisher_node_names c) (topic_publishers h), lg1)"
       "\<not> new_links (model_publisher_node_names c) (topic_publishers h)
          \<longrightarrow> pubs = model_publisher_node_names c"
    by auto
  from merge_link_foldl [of "''Subscriber''" "model_subscriber_node_names c"
      "new_links (model_publisher_node_names c) (topic_publishers h)" lg1 "topic_subscribers h"]
  obtain subs lg2 where
    s: "foldl (merge_link ''Subscriber'')
          (model_subscriber_node_names c,
           new_links (model_publisher_node_names c) (topic_publishers h), lg1)
          (topic_subscribers h)
        = (subs, new_links (model_publisher_node_names c) (topic_publishers h)
                 \<or> new_links (model_subscriber_node_names c) (topic_subscribers h), lg2)"
       "\<not> new_links (model_subscriber_node_names c) (topic_subscribers h)
          \<longrightarrow> subs = model_subscriber_node_names c"
    by auto
  show ?thesis
    using p s by (auto simp: merge_haros_topic_links_with_chris_topic_nodes_def)
qed

text \<open>
  C2. A topic merge in which the specification's type differs from the deployment
  entity's type always returns (the merge has no failing step), keeps the deployment
  type, and logs the conflict.  When the specification brings no new publisher or
  subscriber, the entity is unchanged, version and source included; in general the
  version goes up by one exactly when a new publisher or subscriber is added.
\<close>

theorem topic_type_conflict_keeps_deployment_type:
  assumes "Some (topic_type h) \<noteq> model_construct_type c"
  shows "\<exists>c' lg.
     merge_haros_model_with_chris_model TopicRemodeler TOPIC n h c = (c', lg)
     \<and> model_construct_type c' = model_construct_type c
     \<and> type_conflict_message (topic_type h) (model_construct_type c) \<in> set lg
     \<and> (\<not> new_links (model_publisher_node_names c) (topic_publishers h)
        \<and> \<not> new_links (model_subscriber_node_names c) (topic_subscribers h)
        \<longrightarrow> c' = c)
     \<and> version c' =
         (if new_links (model_publisher_node_names c) (topic_publishers h)
             \<or> new_links (model_subscriber_node_names c) (topic_subscribers h)
          then version c + 1 else version c)"
proof -
  let ?u = "new_links (model_publisher_node_names c) (topic_publishers h)
            \<or> new_links (model_subscriber_node_names c) (topic_subscribers h)"
  from merge_links_result [of h c] obtain c1 lg1 where
    m: "merge_haros_topic_links_with_chris_topic_nodes h c = (c1, ?u, lg1)"
       "model_construct_type c1 = model_construct_type c" "version c1 = version c"
       "\<not> ?u \<longrightarrow> c1 = c"
    by auto
  obtain c2 lg2 where u: "update_chris_model_version Topic_TYPE c1 ?u = (c2, lg2)"
    by (cases "update_chris_model_version Topic_TYPE c1 ?u")
  have u1: "model_construct_type c2 = model_construct_type c1"
       "version c2 = (if ?u then version c1 + 1 else version c1)"
       "\<not> ?u \<longrightarrow> c2 = c1"
    using u by (auto simp: update_chris_model_version_def Let_def split: source.splits if_splits)
  have "merge_haros_model_with_chris_model TopicRemodeler TOPIC n h c
          = (c2, [(INFO, tagged Topic_TYPE (''Merging HAROS Instance with CHRIS Instance ''
                          @ quoted n @ ''.''))]
                 @ ([type_conflict_message (topic_type h) (model_construct_type c)] @ lg1) @ lg2)"
    using assms m(1) u
    by (simp add: merge_haros_model_with_chris_model_def TopicRemodeler_def
        Topic_helper_merge_def Let_def)
  then show ?thesis
    using m u1 by auto
qed

text \<open>
  The scenario of the specification: specification type \<open>A/B\<close>, deployment type \<open>A/C\<close>,
  the same publisher and subscriber on both sides (and one incomplete link).
\<close>

theorem topic_type_conflict_keeps_deployment_type_witness:
  "\<exists>lg. merge_haros_model_with_chris_model TopicRemodeler TOPIC ''/scan''
           conflict_haros_topic conflict_chris_topic = (conflict_chris_topic, lg)
        \<and> type_conflict_message ''A/B'' (Some ''A/C'') \<in> set lg"
proof -
  have a: "Some (topic_type conflict_haros_topic) \<noteq> model_construct_type conflict_chris_topic"
    by (simp add: conflict_haros_topic_def conflict_chris_topic_def)
  have l: "last_token ''/robot/?'' = ''?''"
    by (simp add: last_token_def)
  have i: "\<not> fst (check_haros_name_is_complete Topic_TYPE ''/robot/?'' ''Check for Topic Nodes'')"
    using incomplete_when_last_token_question [OF l] by simp
  have n: "\<not> new_links (model_publisher_node_names conflict_chris_topic)
               (topic_publishers conflict_haros_topic)"
          "\<not> new_links (model_subscriber_node_names conflict_chris_topic)
               (topic_subscribers conflict_haros_topic)"
    using i by (simp_all add: new_links_def conflict_haros_topic_def conflict_chris_topic_def)
  show ?thesis
    using topic_type_conflict_keeps_deployment_type [OF a, of "''/scan''"] n
    by (auto simp: conflict_haros_topic_def conflict_chris_topic_def)
qed

subsection \<open>Node merges: version and provenance\<close>

































end
